theory Spec2Isabelle
  imports Main
begin

section \<open>JavaScript strings\<close>

text \<open>
  A JavaScript string is a sequence of UTF-16 code units; \<open>length\<close>, \<open>slice\<close>,
  \<open>trim\<close>, \<open>includes\<close> and the regular expressions of the sources all work on code
  units. A string is modelled as the list of its code units (each between 0 and 0xFFFF);
  \<open>js\<close> embeds an ASCII literal, and the Chinese literals of the sources are written as
  lists of code units. \<open>is_space\<close> is the class \<^verbatim>\<open>\s\<close> of regular expressions, which is
  also what \<open>String.prototype.trim\<close> strips; \<open>is_word\<close> is the class \<^verbatim>\<open>\w\<close>.
\<close>

type_synonym jstring = "int list"

definition js :: "string \<Rightarrow> jstring" where
  "js s = map of_char s"

definition is_space :: "int \<Rightarrow> bool" where
  "is_space c \<longleftrightarrow>
     c = 0x9 \<or> c = 0xA \<or> c = 0xB \<or> c = 0xC \<or> c = 0xD \<or> c = 0x20 \<or> c = 0xA0 \<or>
     c = 0x1680 \<or> (0x2000 \<le> c \<and> c \<le> 0x200A) \<or> c = 0x2028 \<or> c = 0x2029 \<or>
     c = 0x202F \<or> c = 0x205F \<or> c = 0x3000 \<or> c = 0xFEFF"

definition is_digit :: "int \<Rightarrow> bool" where
  "is_digit c \<longleftrightarrow> 0x30 \<le> c \<and> c \<le> 0x39"

definition is_word :: "int \<Rightarrow> bool" where
  "is_word c \<longleftrightarrow>
     is_digit c \<or> (0x41 \<le> c \<and> c \<le> 0x5A) \<or> c = 0x5F \<or> (0x61 \<le> c \<and> c \<le> 0x7A)"

definition trim :: "jstring \<Rightarrow> jstring" where
  "trim s = rev (dropWhile is_space (rev (dropWhile is_space s)))"

fun starts_with :: "jstring \<Rightarrow> jstring \<Rightarrow> bool" where
  "starts_with s [] = True"
| "starts_with [] (p # ps) = False"
| "starts_with (c # cs) (p # ps) = (c = p \<and> starts_with cs ps)"

fun str_includes :: "jstring \<Rightarrow> jstring \<Rightarrow> bool" where
  "str_includes [] needle = (needle = [])"
| "str_includes (c # cs) needle = (starts_with (c # cs) needle \<or> str_includes cs needle)"

fun join :: "jstring \<Rightarrow> jstring list \<Rightarrow> jstring" where
  "join sep [] = []"
| "join sep [x] = x"
| "join sep (x # y # ys) = x @ sep @ join sep (y # ys)"

definition slice_last :: "nat \<Rightarrow> 'a list \<Rightarrow> 'a list" where
  "slice_last n xs = drop (length xs - n) xs"

section \<open>JavaScript objects\<close>

text \<open>
  A plain object (\<open>Record<string, V>\<close>) is the list of its own properties in insertion
  order, with distinct keys. \<open>obj_put\<close> is the definition of an own property
  (CreateDataProperty, as object spread and \<open>JSON.parse\<close> do it): an existing key keeps its
  position. \<open>obj_assign\<close> is the assignment \<^verbatim>\<open>obj[k] = v\<close> on an object created by
  a literal, where the key \<^verbatim>\<open>__proto__\<close> creates no own property. \<open>obj_entries\<close> is
  the order of \<open>Object.entries\<close> and \<open>Object.values\<close>: array indices first, ascending,
  then the other keys in insertion order.
\<close>

type_synonym 'v jsobject = "(jstring \<times> 'v) list"

fun obj_put :: "jstring \<Rightarrow> 'v \<Rightarrow> 'v jsobject \<Rightarrow> 'v jsobject" where
  "obj_put k v [] = [(k, v)]"
| "obj_put k v ((k', v') # kvs) =
     (if k' = k then (k, v) # kvs else (k', v') # obj_put k v kvs)"

definition obj_assign :: "jstring \<Rightarrow> 'v \<Rightarrow> 'v jsobject \<Rightarrow> 'v jsobject" where
  "obj_assign k v obj = (if k = js ''__proto__'' then obj else obj_put k v obj)"

definition obj_spread :: "'v jsobject \<Rightarrow> 'v jsobject \<Rightarrow> 'v jsobject" where
  "obj_spread a b = foldl (\<lambda>acc (k, v). obj_put k v acc) a b"

definition obj_get :: "'v jsobject \<Rightarrow> jstring \<Rightarrow> 'v option" where
  "obj_get obj k = map_of obj k"

definition decimal_value :: "jstring \<Rightarrow> int" where
  "decimal_value ds = foldl (\<lambda>a d. 10 * a + (d - 0x30)) 0 ds"

definition is_array_index :: "jstring \<Rightarrow> bool" where
  "is_array_index k \<longleftrightarrow>
     k \<noteq> [] \<and> list_all is_digit k \<and> (hd k \<noteq> 0x30 \<or> length k = 1) \<and>
     length k \<le> 10 \<and> decimal_value k < 4294967295"

definition obj_entries :: "'v jsobject \<Rightarrow> (jstring \<times> 'v) list" where
  "obj_entries obj =
     sort_key (\<lambda>(k, v). decimal_value k) (filter (\<lambda>(k, v). is_array_index k) obj) @
     filter (\<lambda>(k, v). \<not> is_array_index k) obj"

definition obj_values :: "'v jsobject \<Rightarrow> 'v list" where
  "obj_values obj = map snd (obj_entries obj)"

section \<open>The regular expressions of the sources\<close>

text \<open>
  \<open>regex_scan m 0 s\<close> is the loop of a global (\<^verbatim>\<open>/g\<close>) regular expression over \<open>s\<close>:
  the matcher \<open>m\<close> is tried at every position from left to right; after a match the scan
  goes on behind it (the second argument counts the code units of the match still to be
  skipped). None of the patterns below matches the empty string. The code units outside
  the matches are what \<^verbatim>\<open>replace(pattern, "")\<close> leaves; the matches are what the
  \<^verbatim>\<open>exec\<close> loop sees.

  \<^item> \<open>match_open\<close> is \<^verbatim>\<open><(\w+)>\<close> at the start of the string: the name and the rest;
  \<^item> \<open>match_close\<close> is \<^verbatim>\<open><\/\w+>\<close>, \<open>match_close_named nm\<close> is \<^verbatim>\<open><\/\1>\<close>;
  \<^item> \<open>lazy_until m\<close> is \<^verbatim>\<open>[\s\S]*?\<close> followed by \<open>m\<close>: the nearest position where
    \<open>m\<close> matches;
  \<^item> \<open>match_tag_pair\<close> is \<^verbatim>\<open><(\w+)>([\s\S]*?)<\/\1>\<close> (extractXmlTags),
    \<open>match_any_pair\<close> is \<^verbatim>\<open><\w+>[\s\S]*?<\/\w+>\<close> and \<open>match_any_open\<close> is
    \<^verbatim>\<open><\w+>\<close> (stripXmlTags);
  \<^item> \<open>match_name\<close> is \<^verbatim>\<open>name[:\s]*["']?(\w+)["']?\<close> with the flag \<^verbatim>\<open>i\<close>
    (extractCharacters), and \<open>find_first\<close> the leftmost match of a pattern without
    \<^verbatim>\<open>/g\<close>;
  \<^item> \<open>greedy_span 0x5B 0x5D\<close> is \<^verbatim>\<open>\[[\s\S]*\]\<close> and \<open>greedy_span 0x7B 0x7D\<close> is
    \<^verbatim>\<open>\{[\s\S]*\}\<close>: from the first opening bracket to the last closing bracket
    behind it.
\<close>

datatype 'a segment = Lit int | Match 'a

fun regex_scan :: "(jstring \<Rightarrow> ('a \<times> jstring) option) \<Rightarrow> nat \<Rightarrow> jstring \<Rightarrow> 'a segment list" where
  "regex_scan m k [] = []"
| "regex_scan m k (c # t) =
     (if 0 < k then regex_scan m (k - 1) t
      else (case m (c # t) of
              Some (a, rest) \<Rightarrow> Match a # regex_scan m (length t - length rest) t
            | None \<Rightarrow> Lit c # regex_scan m 0 t))"

definition literals :: "'a segment list \<Rightarrow> jstring" where
  "literals segs = concat (map (\<lambda>g. case g of Lit c \<Rightarrow> [c] | Match a \<Rightarrow> []) segs)"

definition matches :: "'a segment list \<Rightarrow> 'a list" where
  "matches segs = concat (map (\<lambda>g. case g of Lit c \<Rightarrow> [] | Match a \<Rightarrow> [a]) segs)"

definition match_open :: "jstring \<Rightarrow> (jstring \<times> jstring) option" where
  "match_open s =
     (case s of
        [] \<Rightarrow> None
      | c # t \<Rightarrow>
          (let w = takeWhile is_word t; r = dropWhile is_word t
           in if c = 0x3C \<and> w \<noteq> [] \<and> r \<noteq> [] \<and> hd r = 0x3E then Some (w, tl r) else None))"

definition match_close :: "jstring \<Rightarrow> jstring option" where
  "match_close s =
     (case s of
        c # d # t \<Rightarrow>
          (let w = takeWhile is_word t; r = dropWhile is_word t
           in if c = 0x3C \<and> d = 0x2F \<and> w \<noteq> [] \<and> r \<noteq> [] \<and> hd r = 0x3E then Some (tl r) else None)
      | _ \<Rightarrow> None)"

definition match_close_named :: "jstring \<Rightarrow> jstring \<Rightarrow> jstring option" where
  "match_close_named nm s =
     (let lit = [0x3C, 0x2F] @ nm @ [0x3E]
      in if starts_with s lit then Some (drop (length lit) s) else None)"

fun lazy_until :: "(jstring \<Rightarrow> jstring option) \<Rightarrow> jstring \<Rightarrow> (jstring \<times> jstring) option" where
  "lazy_until m [] = (case m [] of Some r \<Rightarrow> Some ([], r) | None \<Rightarrow> None)"
| "lazy_until m (c # t) =
     (case m (c # t) of
        Some r \<Rightarrow> Some ([], r)
      | None \<Rightarrow> (case lazy_until m t of Some (skipped, r) \<Rightarrow> Some (c # skipped, r) | None \<Rightarrow> None))"

definition match_tag_pair :: "jstring \<Rightarrow> ((jstring \<times> jstring) \<times> jstring) option" where
  "match_tag_pair s =
     (case match_open s of
        None \<Rightarrow> None
      | Some (nm, r) \<Rightarrow>
          (case lazy_until (match_close_named nm) r of
             None \<Rightarrow> None
           | Some (inner, rest) \<Rightarrow> Some ((nm, inner), rest)))"

definition match_any_pair :: "jstring \<Rightarrow> (unit \<times> jstring) option" where
  "match_any_pair s =
     (case match_open s of
        None \<Rightarrow> None
      | Some (nm, r) \<Rightarrow>
          (case lazy_until match_close r of
             None \<Rightarrow> None
           | Some (inner, rest) \<Rightarrow> Some ((), rest)))"

definition match_any_open :: "jstring \<Rightarrow> (unit \<times> jstring) option" where
  "match_any_open s = (case match_open s of None \<Rightarrow> None | Some (nm, r) \<Rightarrow> Some ((), r))"

definition ascii_lower :: "int \<Rightarrow> int" where
  "ascii_lower c = (if 0x41 \<le> c \<and> c \<le> 0x5A then c + 0x20 else c)"

definition match_name :: "jstring \<Rightarrow> jstring option" where
  "match_name s =
     (if starts_with (map ascii_lower (take 4 s)) (js ''name'') then
        (let t = dropWhile (\<lambda>c. c = 0x3A \<or> is_space c) (drop 4 s);
             u = (if t \<noteq> [] \<and> (hd t = 0x22 \<or> hd t = 0x27) then tl t else t);
             w = takeWhile is_word u
         in if w \<noteq> [] then Some w else None)
      else None)"

fun find_first :: "(jstring \<Rightarrow> 'a option) \<Rightarrow> jstring \<Rightarrow> 'a option" where
  "find_first m [] = m []"
| "find_first m (c # t) = (case m (c # t) of Some a \<Rightarrow> Some a | None \<Rightarrow> find_first m t)"

definition greedy_span :: "int \<Rightarrow> int \<Rightarrow> jstring \<Rightarrow> jstring option" where
  "greedy_span opening closing s =
     (case dropWhile (\<lambda>c. c \<noteq> opening) s of
        [] \<Rightarrow> None
      | c # body \<Rightarrow>
          (if closing \<in> set body
           then Some (c # rev (dropWhile (\<lambda>d. d \<noteq> closing) (rev body)))
           else None))"

section \<open>JSON.parse\<close>

text \<open>
  The built-in \<open>JSON.parse\<close>, as a pushdown automaton over the code units of the text
  (the JSON grammar of ECMA-404): \<open>None\<close> is the SyntaxError. A number keeps its lexeme;
  a repeated key of an object keeps its first position and its last value.
\<close>

datatype json =
    JNull
  | JBool bool
  | JNum jstring
  | JStr jstring
  | JArr "json list"
  | JObj "(jstring \<times> json) list"

datatype frame =
    FArr "json list"
  | FObj "(jstring \<times> json) list" "jstring option"

datatype numstate = NMinus | NZero | NInt | NDot | NFrac | NE | NESign | NExp

datatype mode =
    MValue
  | MArrStart
  | MObjStart
  | MKey
  | MColon
  | MAfter
  | MDone json
  | MStr bool jstring
  | MEsc bool jstring
  | MUni bool jstring nat int
  | MNum numstate jstring
  | MLit json jstring

type_synonym pstate = "mode \<times> frame list"

definition is_json_ws :: "int \<Rightarrow> bool" where
  "is_json_ws c \<longleftrightarrow> c = 0x20 \<or> c = 0x9 \<or> c = 0xA \<or> c = 0xD"

definition hex_value :: "int \<Rightarrow> int option" where
  "hex_value c =
     (if 0x30 \<le> c \<and> c \<le> 0x39 then Some (c - 0x30)
      else if 0x41 \<le> c \<and> c \<le> 0x46 then Some (c - 0x37)
      else if 0x61 \<le> c \<and> c \<le> 0x66 then Some (c - 0x57)
      else None)"

definition complete :: "json \<Rightarrow> frame list \<Rightarrow> pstate option" where
  "complete v stack =
     (case stack of
        [] \<Rightarrow> Some (MDone v, [])
      | FArr xs # st \<Rightarrow> Some (MAfter, FArr (v # xs) # st)
      | FObj kvs (Some k) # st \<Rightarrow> Some (MAfter, FObj (obj_put k v kvs) None # st)
      | FObj kvs None # st \<Rightarrow> None)"

definition start_value :: "int \<Rightarrow> frame list \<Rightarrow> pstate option" where
  "start_value c stack =
     (if c = 0x7B then Some (MObjStart, FObj [] None # stack)
      else if c = 0x5B then Some (MArrStart, FArr [] # stack)
      else if c = 0x22 then Some (MStr False [], stack)
      else if c = 0x2D then Some (MNum NMinus [c], stack)
      else if c = 0x30 then Some (MNum NZero [c], stack)
      else if 0x31 \<le> c \<and> c \<le> 0x39 then Some (MNum NInt [c], stack)
      else if c = 0x74 then Some (MLit (JBool True) (js ''rue''), stack)
      else if c = 0x66 then Some (MLit (JBool False) (js ''alse''), stack)
      else if c = 0x6E then Some (MLit JNull (js ''ull''), stack)
      else None)"

definition after_value :: "int \<Rightarrow> frame list \<Rightarrow> pstate option" where
  "after_value c stack =
     (if is_json_ws c then Some (MAfter, stack)
      else (case stack of
              [] \<Rightarrow> None
            | FArr xs # st \<Rightarrow>
                (if c = 0x2C then Some (MValue, stack)
                 else if c = 0x5D then complete (JArr (rev xs)) st
                 else None)
            | FObj kvs pending # st \<Rightarrow>
                (if c = 0x2C then Some (MKey, stack)
                 else if c = 0x7D then complete (JObj kvs) st
                 else None)))"

definition end_number :: "jstring \<Rightarrow> int \<Rightarrow> frame list \<Rightarrow> pstate option" where
  "end_number lexeme c stack =
     (case complete (JNum (rev lexeme)) stack of
        None \<Rightarrow> None
      | Some (MDone v, st) \<Rightarrow> (if is_json_ws c then Some (MDone v, st) else None)
      | Some (m, st) \<Rightarrow> after_value c st)"

definition number_step :: "numstate \<Rightarrow> jstring \<Rightarrow> int \<Rightarrow> frame list \<Rightarrow> pstate option" where
  "number_step ns lexeme c stack =
     (let digit = is_digit c; dot = (c = 0x2E); ex = (c = 0x65 \<or> c = 0x45);
          sign = (c = 0x2B \<or> c = 0x2D); continue = (\<lambda>ns'. Some (MNum ns' (c # lexeme), stack))
      in case ns of
           NMinus \<Rightarrow> (if c = 0x30 then continue NZero else if digit then continue NInt else None)
         | NZero \<Rightarrow> (if dot then continue NDot else if ex then continue NE
                      else end_number lexeme c stack)
         | NInt \<Rightarrow> (if digit then continue NInt else if dot then continue NDot
                     else if ex then continue NE else end_number lexeme c stack)
         | NDot \<Rightarrow> (if digit then continue NFrac else None)
         | NFrac \<Rightarrow> (if digit then continue NFrac else if ex then continue NE
                      else end_number lexeme c stack)
         | NE \<Rightarrow> (if sign then continue NESign else if digit then continue NExp else None)
         | NESign \<Rightarrow> (if digit then continue NExp else None)
         | NExp \<Rightarrow> (if digit then continue NExp else end_number lexeme c stack))"

definition end_string :: "bool \<Rightarrow> jstring \<Rightarrow> frame list \<Rightarrow> pstate option" where
  "end_string is_key text stack =
     (if is_key then
        (case stack of
           FObj kvs pending # st \<Rightarrow> Some (MColon, FObj kvs (Some text) # st)
         | _ \<Rightarrow> None)
      else complete (JStr text) stack)"

definition json_step :: "pstate \<Rightarrow> int \<Rightarrow> pstate option" where
  "json_step ps c =
     (case ps of (m, stack) \<Rightarrow>
        (case m of
           MValue \<Rightarrow> (if is_json_ws c then Some (MValue, stack) else start_value c stack)
         | MArrStart \<Rightarrow>
             (if is_json_ws c then Some (MArrStart, stack)
              else if c = 0x5D then complete (JArr []) (tl stack)
              else start_value c stack)
         | MObjStart \<Rightarrow>
             (if is_json_ws c then Some (MObjStart, stack)
              else if c = 0x7D then complete (JObj []) (tl stack)
              else if c = 0x22 then Some (MStr True [], stack)
              else None)
         | MKey \<Rightarrow>
             (if is_json_ws c then Some (MKey, stack)
              else if c = 0x22 then Some (MStr True [], stack)
              else None)
         | MColon \<Rightarrow>
             (if is_json_ws c then Some (MColon, stack)
              else if c = 0x3A then Some (MValue, stack)
              else None)
         | MAfter \<Rightarrow> after_value c stack
         | MDone v \<Rightarrow> (if is_json_ws c then Some (MDone v, stack) else None)
         | MStr k acc \<Rightarrow>
             (if c = 0x22 then end_string k (rev acc) stack
              else if c = 0x5C then Some (MEsc k acc, stack)
              else if c < 0x20 then None
              else Some (MStr k (c # acc), stack))
         | MEsc k acc \<Rightarrow>
             (if c = 0x22 \<or> c = 0x5C \<or> c = 0x2F then Some (MStr k (c # acc), stack)
              else if c = 0x62 then Some (MStr k (0x8 # acc), stack)
              else if c = 0x66 then Some (MStr k (0xC # acc), stack)
              else if c = 0x6E then Some (MStr k (0xA # acc), stack)
              else if c = 0x72 then Some (MStr k (0xD # acc), stack)
              else if c = 0x74 then Some (MStr k (0x9 # acc), stack)
              else if c = 0x75 then Some (MUni k acc 0 0, stack)
              else None)
         | MUni k acc n v \<Rightarrow>
             (case hex_value c of
                None \<Rightarrow> None
              | Some h \<Rightarrow>
                  (if n = 3 then Some (MStr k ((16 * v + h) # acc), stack)
                   else Some (MUni k acc (n + 1) (16 * v + h), stack)))
         | MNum ns lexeme \<Rightarrow> number_step ns lexeme c stack
         | MLit v rest \<Rightarrow>
             (case rest of
                [] \<Rightarrow> None
              | r # rs \<Rightarrow>
                  (if c \<noteq> r then None
                   else if rs = [] then complete v stack
                   else Some (MLit v rs, stack)))))"

fun json_run :: "pstate \<Rightarrow> jstring \<Rightarrow> pstate option" where
  "json_run ps [] = Some ps"
| "json_run ps (c # cs) = (case json_step ps c of None \<Rightarrow> None | Some ps' \<Rightarrow> json_run ps' cs)"

definition json_finish :: "pstate \<Rightarrow> json option" where
  "json_finish ps =
     (case ps of
        (MDone v, stack) \<Rightarrow> Some v
      | (MNum ns lexeme, []) \<Rightarrow>
          (if ns = NZero \<or> ns = NInt \<or> ns = NFrac \<or> ns = NExp then Some (JNum (rev lexeme)) else None)
      | _ \<Rightarrow> None)"

definition JSON_parse :: "jstring \<Rightarrow> json option" where
  "JSON_parse text =
     (case json_run (MValue, []) text of None \<Rightarrow> None | Some ps \<Rightarrow> json_finish ps)"

section \<open>The shared state\<close>

text \<open>
  The interfaces of the state module. \<open>retryCount\<close> starts at 0 and is only ever
  incremented, so it is a natural number. The opaque table snapshot is kept as a string.
\<close>

record Character =
  name :: jstring
  present :: bool
  lastPosition :: jstring
  description :: "jstring option"

record WorldState =
  scene :: jstring
  time :: jstring
  characters :: "Character jsobject"
  recentEvents :: "jstring list"

record Message =
  role :: jstring
  content :: jstring

record ParsedInput =
  presetInstructions :: "jstring jsobject"
  characterSettings :: "jstring jsobject"
  chatHistory :: "Message list"
  userInput :: jstring
  tableData :: "jstring option"

record PersonaOutput =
  characterName :: jstring
  content :: jstring
  formatValid :: bool

record GraphState =
  rawMessages :: "Message list"
  parsedInput :: "ParsedInput option"
  worldState :: "WorldState option"
  activeCharacters :: "jstring list"
  characterContexts :: "jstring jsobject"
  personaOutputs :: "PersonaOutput list"
  formatCheckPassed :: bool
  retryCount :: nat
  finalOutput :: jstring
  error :: "jstring option"

text \<open>
  A node returns a \<open>Partial<GraphState>\<close>: the list of the fields it sets. The graph
  merges it into the state with the reducer of each field, as \<open>GraphStateAnnotation\<close>
  declares them: every field is replaced, except \<open>worldState\<close> (\<^verbatim>\<open>y ?? x\<close>) and
  \<open>personaOutputs\<close> (\<^verbatim>\<open>[...x, ...y]\<close>).
\<close>

datatype assignment =
    SetRawMessages "Message list"
  | SetParsedInput "ParsedInput option"
  | SetWorldState "WorldState option"
  | SetActiveCharacters "jstring list"
  | SetCharacterContexts "jstring jsobject"
  | SetPersonaOutputs "PersonaOutput list"
  | SetFormatCheckPassed bool
  | SetRetryCount nat
  | SetFinalOutput jstring
  | SetError "jstring option"

fun reducer :: "GraphState \<Rightarrow> assignment \<Rightarrow> GraphState" where
  "reducer x (SetRawMessages y) = x\<lparr>rawMessages := y\<rparr>"
| "reducer x (SetParsedInput y) = x\<lparr>parsedInput := y\<rparr>"
| "reducer x (SetWorldState y) =
     x\<lparr>worldState := (case y of None \<Rightarrow> worldState x | Some w \<Rightarrow> Some w)\<rparr>"
| "reducer x (SetActiveCharacters y) = x\<lparr>activeCharacters := y\<rparr>"
| "reducer x (SetCharacterContexts y) = x\<lparr>characterContexts := y\<rparr>"
| "reducer x (SetPersonaOutputs y) = x\<lparr>personaOutputs := personaOutputs x @ y\<rparr>"
| "reducer x (SetFormatCheckPassed y) = x\<lparr>formatCheckPassed := y\<rparr>"
| "reducer x (SetRetryCount y) = x\<lparr>retryCount := y\<rparr>"
| "reducer x (SetFinalOutput y) = x\<lparr>finalOutput := y\<rparr>"
| "reducer x (SetError y) = x\<lparr>error := y\<rparr>"

definition merge :: "GraphState \<Rightarrow> assignment list \<Rightarrow> GraphState" where
  "merge x update = foldl reducer x update"

definition defaultState :: GraphState where
  "defaultState =
     \<lparr>rawMessages = [], parsedInput = None, worldState = None, activeCharacters = [],
      characterContexts = [], personaOutputs = [], formatCheckPassed = False, retryCount = 0,
      finalOutput = [], error = None\<rparr>"

definition initialState :: "Message list \<Rightarrow> GraphState" where
  "initialState messages =
     merge defaultState [SetRawMessages messages, SetPersonaOutputs [], SetRetryCount 0]"

section \<open>The collaborators of the stages\<close>

text \<open>
  A model invocation returns a response whose content is a string (\<open>Text\<close>) or not
  (\<open>NonText\<close>), or it throws (\<open>Failure\<close>). \<open>Env\<close> holds everything a run reads from
  outside the state: the models of the four agents (\<open>None\<close> when the module-level
  variable is \<open>null\<close>), the prompt templates of the ConfigManager, the built-in
  \<open>JSON.stringify\<close> (its text only goes into prompts) and the table snapshot. A model is
  a function of its prompt; the Persona model is also a function of the number of the
  fan-out and of the position of the character in it, so that every invocation of a run
  can answer differently. The events record which characters the fan-out generated a
  reply for and which models were invoked.
\<close>

datatype AgentType = AgentNarrator | AgentDirector | AgentPersona | AgentComposer

datatype llm_result = Text jstring | NonText | Failure

definition response_content :: "llm_result \<Rightarrow> jstring" where
  "response_content r = (case r of Text c \<Rightarrow> c | _ \<Rightarrow> [])"

record Env =
  narratorModel :: "(jstring \<Rightarrow> llm_result) option"
  directorModel :: "(jstring \<Rightarrow> llm_result) option"
  personaModelConfig :: "(nat \<Rightarrow> nat \<Rightarrow> jstring \<Rightarrow> jstring \<Rightarrow> llm_result) option"
  composerModel :: "(jstring \<Rightarrow> llm_result) option"
  renderPrompt :: "AgentType \<Rightarrow> jstring jsobject \<Rightarrow> jstring"
  stringifyWorld :: "WorldState option \<Rightarrow> jstring"
  stringifySettings :: "jstring jsobject \<Rightarrow> jstring"
  getTableData :: "jstring option"

datatype event = Invoke AgentType | Generate jstring

type_synonym node_result = "assignment list \<times> event list"

definition truthy_or :: "jstring option \<Rightarrow> jstring \<Rightarrow> jstring" where
  "truthy_or v d = (case v of None \<Rightarrow> d | Some x \<Rightarrow> if x = [] then d else x)"

section \<open>Parser\<close>

definition PRESET_TAGS :: "jstring list" where
  "PRESET_TAGS =
     [js ''core_features'', js ''fiction_style'', js ''Writing_style'',
      js ''additional_constraints'', js ''content_constraints'', js ''explicit_guidelines'']"

definition CHARACTER_TAGS :: "jstring list" where
  "CHARACTER_TAGS = [js ''info_settings'', js ''char'', js ''user'']"

definition HISTORY_TAGS :: "jstring list" where
  "HISTORY_TAGS = [js ''Interaction_history'', js ''chat_history'']"

definition extractXmlTags :: "jstring \<Rightarrow> jstring jsobject" where
  "extractXmlTags text =
     foldl (\<lambda>tags (nm, inner). obj_assign nm (trim inner) tags) []
       (matches (regex_scan match_tag_pair 0 text))"

definition stripXmlTags :: "jstring \<Rightarrow> jstring" where
  "stripXmlTags text =
     trim (literals (regex_scan match_any_open 0 (literals (regex_scan match_any_pair 0 text))))"

type_synonym parse_acc = "jstring jsobject \<times> jstring jsobject \<times> Message list"

definition classify_tag :: "parse_acc \<Rightarrow> jstring \<times> jstring \<Rightarrow> parse_acc" where
  "classify_tag acc tag =
     (case acc of (presets, settings, history) \<Rightarrow>
        (case tag of (tagName, tagContent) \<Rightarrow>
           if tagName \<in> set PRESET_TAGS then
             (obj_assign tagName tagContent presets, settings, history)
           else if tagName \<in> set CHARACTER_TAGS then
             (presets, obj_assign tagName tagContent settings, history)
           else if tagName \<in> set HISTORY_TAGS then
             (presets, settings,
              history @ [\<lparr>role = js ''history'', Message.content = tagContent\<rparr>])
           else acc))"

definition parse_message :: "parse_acc \<Rightarrow> Message \<Rightarrow> parse_acc" where
  "parse_message acc msg =
     (case foldl classify_tag acc (obj_entries (extractXmlTags (Message.content msg))) of
        (presets, settings, history) \<Rightarrow>
          if role msg = js ''assistant'' \<or> role msg = js ''user'' then
            (let cleanContent = stripXmlTags (Message.content msg)
             in if cleanContent \<noteq> [] then
                  (presets, settings,
                   history @ [\<lparr>role = role msg, Message.content = cleanContent\<rparr>])
                else (presets, settings, history))
          else (presets, settings, history))"

fun last_user_input :: "Message list \<Rightarrow> jstring" where
  "last_user_input [] = []"
| "last_user_input (msg # earlier) =
     (if role msg = js ''user'' then
        (let userInput = stripXmlTags (Message.content msg)
         in if userInput \<noteq> [] then userInput else last_user_input earlier)
      else last_user_input earlier)"

definition parserNode :: "Env \<Rightarrow> GraphState \<Rightarrow> node_result" where
  "parserNode env state =
     (case foldl parse_message ([], [], []) (rawMessages state) of
        (presets, settings, history) \<Rightarrow>
          ([SetParsedInput (Some
              \<lparr>presetInstructions = presets, characterSettings = settings,
               chatHistory = history, userInput = last_user_input (rev (rawMessages state)),
               tableData = getTableData env\<rparr>)], []))"

section \<open>Narrator\<close>

definition CURRENT_SCENE :: jstring where
  "CURRENT_SCENE = [0x5F53, 0x524D, 0x573A, 0x666F]"

definition UNKNOWN_SCENE :: jstring where
  "UNKNOWN_SCENE = [0x672A, 0x77E5, 0x573A, 0x666F]"

definition UNKNOWN_TIME :: jstring where
  "UNKNOWN_TIME = [0x672A, 0x77E5, 0x65F6, 0x95F4]"

definition USER_INPUT_PREFIX :: jstring where
  "USER_INPUT_PREFIX = [0x7528, 0x6237, 0x8F93, 0x5165, 0x3A, 0x20]"

definition NARRATOR_ERROR :: jstring where
  "NARRATOR_ERROR =
     js ''Parser '' @ [0x672A, 0x5B8C, 0x6210, 0xFF0C, 0x65E0, 0x6CD5, 0x6267, 0x884C] @
     js '' Narrator''"

definition extractCharacters :: "jstring jsobject \<Rightarrow> Character jsobject" where
  "extractCharacters settings =
     (let charInfo =
            truthy_or (obj_get settings (js ''char''))
              (truthy_or (obj_get settings (js ''info_settings'')) [])
      in case find_first match_name charInfo of
           None \<Rightarrow> []
         | Some nm \<Rightarrow>
             obj_assign nm
               \<lparr>name = nm, present = True, lastPosition = CURRENT_SCENE, description = None\<rparr> [])"

text \<open>
  The model-driven Narrator casts the parsed JSON value to \<open>WorldState\<close> without a check.
  \<open>asWorldState\<close> reads a value that has the shape of the interface; a value of another
  shape leaves the typed state of this development, and the run is cut there
  (\<open>ShapeMismatch\<close>).
\<close>

datatype fault = ShapeMismatch json

definition string_of_json :: "json \<Rightarrow> jstring option" where
  "string_of_json j = (case j of JStr s \<Rightarrow> Some s | _ \<Rightarrow> None)"

definition bool_of_json :: "json \<Rightarrow> bool option" where
  "bool_of_json j = (case j of JBool b \<Rightarrow> Some b | _ \<Rightarrow> None)"

fun all_some :: "'a option list \<Rightarrow> 'a list option" where
  "all_some [] = Some []"
| "all_some (None # xs) = None"
| "all_some (Some x # xs) = (case all_some xs of None \<Rightarrow> None | Some ys \<Rightarrow> Some (x # ys))"

definition character_of_json :: "json \<Rightarrow> Character option" where
  "character_of_json j =
     (case j of
        JObj kvs \<Rightarrow>
          (case (map_option string_of_json (map_of kvs (js ''name'')),
                 map_option bool_of_json (map_of kvs (js ''present'')),
                 map_option string_of_json (map_of kvs (js ''lastPosition'')),
                 map_option string_of_json (map_of kvs (js ''description''))) of
             (Some (Some n), Some (Some p), Some (Some l), d) \<Rightarrow>
               (if d = Some None \<or>
                   \<not> list_all (\<lambda>(k, v). k \<in> set
                        [js ''name'', js ''present'', js ''lastPosition'', js ''description'']) kvs
                then None
                else Some \<lparr>name = n, present = p, lastPosition = l,
                           description = (case d of Some (Some t) \<Rightarrow> Some t | _ \<Rightarrow> None)\<rparr>)
           | _ \<Rightarrow> None)
      | _ \<Rightarrow> None)"

definition asWorldState :: "json \<Rightarrow> WorldState option" where
  "asWorldState j =
     (case j of
        JObj kvs \<Rightarrow>
          (case (map_of kvs (js ''scene''), map_of kvs (js ''time''),
                 map_of kvs (js ''characters''), map_of kvs (js ''recentEvents'')) of
             (Some (JStr s), Some (JStr t), Some (JObj cs), Some (JArr es)) \<Rightarrow>
               (case (all_some (map (\<lambda>(k, v). map_option (Pair k) (character_of_json v)) cs),
                      all_some (map string_of_json es)) of
                  (Some chars, Some events) \<Rightarrow>
                    (if length kvs = 4
                     then Some \<lparr>scene = s, time = t, characters = chars, recentEvents = events\<rparr>
                     else None)
                | _ \<Rightarrow> None)
           | _ \<Rightarrow> None)
      | _ \<Rightarrow> None)"

definition inputEvent :: "ParsedInput \<Rightarrow> jstring" where
  "inputEvent input = USER_INPUT_PREFIX @ take 50 (userInput input) @ js ''...''"

definition ruleBasedWorldState :: "ParsedInput \<Rightarrow> WorldState option \<Rightarrow> WorldState" where
  "ruleBasedWorldState input currentWorldState =
     \<lparr>scene = truthy_or (map_option scene currentWorldState) UNKNOWN_SCENE,
      time = truthy_or (map_option time currentWorldState) UNKNOWN_TIME,
      characters =
        obj_spread
          (obj_spread [] (case currentWorldState of None \<Rightarrow> [] | Some w \<Rightarrow> characters w))
          (extractCharacters (characterSettings input)),
      recentEvents =
        slice_last 10
          ((case currentWorldState of None \<Rightarrow> [] | Some w \<Rightarrow> recentEvents w) @
           [inputEvent input])\<rparr>"

definition narratorPrompt :: "Env \<Rightarrow> ParsedInput \<Rightarrow> WorldState option \<Rightarrow> jstring" where
  "narratorPrompt env input currentWorldState =
     renderPrompt env AgentNarrator
       [(js ''characterSettings'', stringifySettings env (characterSettings input)),
        (js ''chatHistory'',
           join [0xA]
             (map (\<lambda>h. role h @ js '': '' @ Message.content h) (slice_last 5 (chatHistory input)))),
        (js ''userInput'', userInput input),
        (js ''worldState'', stringifyWorld env currentWorldState)]"

definition narratorNode :: "Env \<Rightarrow> GraphState \<Rightarrow> fault + node_result" where
  "narratorNode env state =
     (case parsedInput state of
        None \<Rightarrow> Inr ([SetError (Some NARRATOR_ERROR)], [])
      | Some input \<Rightarrow>
          (case narratorModel env of
             None \<Rightarrow>
               Inr ([SetWorldState (Some (ruleBasedWorldState input (worldState state)))], [])
           | Some model \<Rightarrow>
               (let unchanged = Inr ([SetWorldState (worldState state)], [Invoke AgentNarrator])
                in case model (narratorPrompt env input (worldState state)) of
                     Failure \<Rightarrow> unchanged
                   | response \<Rightarrow>
                       (case greedy_span 0x7B 0x7D (response_content response) of
                          None \<Rightarrow> unchanged
                        | Some jsonMatch \<Rightarrow>
                            (case JSON_parse jsonMatch of
                               None \<Rightarrow> unchanged
                             | Some j \<Rightarrow>
                                 (case asWorldState j of
                                    None \<Rightarrow> Inl (ShapeMismatch j)
                                  | Some newWorldState \<Rightarrow>
                                      Inr ([SetWorldState (Some newWorldState)],
                                           [Invoke AgentNarrator])))))))"

section \<open>Director\<close>

definition DIRECTOR_ERROR :: jstring where
  "DIRECTOR_ERROR =
     [0x7F3A, 0x5C11, 0x5FC5, 0x8981, 0x72B6, 0x6001, 0xFF0C, 0x65E0, 0x6CD5, 0x6267, 0x884C] @
     js '' Director''"

definition presentCharacters :: "WorldState \<Rightarrow> jstring list" where
  "presentCharacters world = map name (filter present (obj_values (characters world)))"

definition buildCharacterContext :: "jstring \<Rightarrow> ParsedInput \<Rightarrow> WorldState \<Rightarrow> jstring" where
  "buildCharacterContext charName input world =
     (let otherCharacters =
            map name (filter (\<lambda>c. present c \<and> name c \<noteq> charName) (obj_values (characters world)))
      in join [0xA, 0xA]
           ([js ''## '' @ [0x4F60, 0x662F] @ js '' '' @ charName,
             js ''## '' @ [0x5F53, 0x524D, 0x573A, 0x666F] @ js '': '' @ scene world,
             js ''## '' @ [0x65F6, 0x95F4] @ js '': '' @ time world] @
            (if otherCharacters \<noteq> []
             then [js ''## '' @ [0x5728, 0x573A, 0x7684, 0x5176, 0x4ED6, 0x4EBA] @ js '': '' @
                   join (js '', '') otherCharacters]
             else []) @
            (if recentEvents world \<noteq> []
             then [js ''## '' @ [0x6700, 0x8FD1, 0x53D1, 0x751F, 0x7684, 0x4E8B] @ js '':'',
                   join [0xA] (slice_last 5 (recentEvents world))]
             else []) @
            [js ''## '' @ [0x7528, 0x6237, 0x8BF4, 0x2F, 0x505A] @ js '':'',
             userInput input]))"

definition buildContexts :: "jstring list \<Rightarrow> ParsedInput \<Rightarrow> WorldState \<Rightarrow> jstring jsobject" where
  "buildContexts names input world =
     foldl (\<lambda>contexts charName.
              obj_assign charName (buildCharacterContext charName input world) contexts)
       [] names"

definition json_strings :: "json list \<Rightarrow> jstring list" where
  "json_strings xs = concat (map (\<lambda>j. case j of JStr s \<Rightarrow> [s] | _ \<Rightarrow> []) xs)"

definition directorPrompt :: "Env \<Rightarrow> ParsedInput \<Rightarrow> WorldState \<Rightarrow> jstring" where
  "directorPrompt env input world =
     renderPrompt env AgentDirector
       [(js ''worldState'', stringifyWorld env (Some world)),
        (js ''userInput'', userInput input),
        (js ''presentCharacters'', join (js '', '') (presentCharacters world))]"

definition directorNode :: "Env \<Rightarrow> GraphState \<Rightarrow> node_result" where
  "directorNode env state =
     (case (parsedInput state, worldState state) of
        (Some input, Some world) \<Rightarrow>
          (let present_names = presentCharacters world;
               everyone = (\<lambda>events.
                 ([SetActiveCharacters present_names,
                   SetCharacterContexts (buildContexts present_names input world)], events))
           in if present_names = [] then ([SetActiveCharacters [], SetCharacterContexts []], [])
              else
                (case directorModel env of
                   None \<Rightarrow> everyone []
                 | Some model \<Rightarrow>
                     (case model (directorPrompt env input world) of
                        Failure \<Rightarrow> everyone [Invoke AgentDirector]
                      | response \<Rightarrow>
                          (case greedy_span 0x5B 0x5D (response_content response) of
                             None \<Rightarrow> everyone [Invoke AgentDirector]
                           | Some jsonMatch \<Rightarrow>
                               (case JSON_parse jsonMatch of
                                  Some (JArr chosen) \<Rightarrow>
                                    (let validCharacters =
                                           filter (\<lambda>c. c \<in> set present_names)
                                             (json_strings chosen)
                                     in ([SetActiveCharacters validCharacters,
                                          SetCharacterContexts
                                            (buildContexts validCharacters input world)],
                                         [Invoke AgentDirector]))
                                | _ \<Rightarrow> everyone [Invoke AgentDirector])))))
      | _ \<Rightarrow> ([SetError (Some DIRECTOR_ERROR)], []))"

definition maxRetries :: nat where
  "maxRetries = 3"

definition allValid :: "PersonaOutput list \<Rightarrow> bool" where
  "allValid outputs =
     list_all (\<lambda>output. \<not> (PersonaOutput.content output = [] \<or>
                              length (trim (PersonaOutput.content output)) = 0)) outputs"

definition directorEvaluateNode :: "GraphState \<Rightarrow> node_result" where
  "directorEvaluateNode state =
     (if allValid (personaOutputs state) then ([SetFormatCheckPassed True], [])
      else if retryCount state \<ge> maxRetries then ([SetFormatCheckPassed True], [])
      else ([SetFormatCheckPassed False, SetRetryCount (retryCount state + 1),
             SetPersonaOutputs []], []))"

section \<open>Persona\<close>

definition notConfiguredReply :: "jstring \<Rightarrow> jstring" where
  "notConfiguredReply charName =
     js ''['' @ charName @ js '' '' @ [0x65E0, 0x6CD5, 0x56DE, 0x590D] @ js '' - '' @
     [0x6A21, 0x578B, 0x672A, 0x914D, 0x7F6E] @ js '']''"

definition generationErrorReply :: "jstring \<Rightarrow> jstring" where
  "generationErrorReply charName =
     js ''['' @ charName @ js '' '' @ [0x751F, 0x6210, 0x51FA, 0x9519] @ js '']''"

definition section_or_empty :: "jstring \<Rightarrow> jstring option \<Rightarrow> jstring" where
  "section_or_empty heading v =
     (case v of None \<Rightarrow> [] | Some x \<Rightarrow> if x = [] then [] else heading @ x)"

definition buildSystemPrompt :: "Env \<Rightarrow> jstring \<Rightarrow> jstring jsobject \<Rightarrow> jstring" where
  "buildSystemPrompt env charName presets =
     renderPrompt env AgentPersona
       [(js ''characterName'', charName),
        (js ''fictionStyle'',
           section_or_empty (js ''## '' @ [0x5199, 0x4F5C, 0x98CE, 0x683C, 0xA])
             (obj_get presets (js ''fiction_style''))),
        (js ''writingStyle'',
           section_or_empty (js ''## '' @ [0x5199, 0x4F5C, 0x89C4, 0x8303, 0xA])
             (obj_get presets (js ''Writing_style''))),
        (js ''contentConstraints'',
           section_or_empty (js ''## '' @ [0x5185, 0x5BB9, 0x7EA6, 0x675F, 0xA])
             (obj_get presets (js ''content_constraints'')))]"

definition generatePersonaResponse ::
  "Env \<Rightarrow> nat \<Rightarrow> nat \<Rightarrow> jstring \<Rightarrow> jstring \<Rightarrow> jstring jsobject \<Rightarrow> PersonaOutput \<times> event list" where
  "generatePersonaResponse env round slot charName context presets =
     (case personaModelConfig env of
        None \<Rightarrow>
          (\<lparr>characterName = charName, content = notConfiguredReply charName,
            formatValid = False\<rparr>, [Generate charName])
      | Some model \<Rightarrow>
          (case model round slot (buildSystemPrompt env charName presets) context of
             Failure \<Rightarrow>
               (\<lparr>characterName = charName, content = generationErrorReply charName,
                 formatValid = False\<rparr>, [Generate charName, Invoke AgentPersona])
           | response \<Rightarrow>
               (\<lparr>characterName = charName, content = response_content response,
                 formatValid = (length (response_content response) > 0)\<rparr>,
                [Generate charName, Invoke AgentPersona])))"

definition personaNode :: "Env \<Rightarrow> nat \<Rightarrow> GraphState \<Rightarrow> node_result" where
  "personaNode env round state =
     (case parsedInput state of
        None \<Rightarrow> ([SetPersonaOutputs []], [])
      | Some input \<Rightarrow>
          (if length (activeCharacters state) = 0 then ([SetPersonaOutputs []], [])
           else
             (let outputs =
                    map (\<lambda>(slot, charName).
                           generatePersonaResponse env round slot charName
                             (truthy_or (obj_get (characterContexts state) charName) [])
                             (presetInstructions input))
                      (enumerate 0 (activeCharacters state))
              in ([SetPersonaOutputs (map fst outputs)], concat (map snd outputs)))))"

section \<open>Composer\<close>

definition NO_REPLIES :: jstring where
  "NO_REPLIES = js ''['' @ [0x6CA1, 0x6709, 0x89D2, 0x8272, 0x56DE, 0x590D] @ js '']''"

definition UNKNOWN :: jstring where
  "UNKNOWN = [0x672A, 0x77E5]"

definition simpleCompose :: "PersonaOutput list \<Rightarrow> jstring" where
  "simpleCompose outputs =
     join ([0xA, 0xA] @ js ''---'' @ [0xA, 0xA])
       (map (\<lambda>out. if \<not> str_includes (PersonaOutput.content out) (characterName out)
                    then [0x3010] @ characterName out @ [0x3011, 0xA] @ PersonaOutput.content out
                    else PersonaOutput.content out)
          (filter (\<lambda>out. formatValid out \<and> PersonaOutput.content out \<noteq> []) outputs))"

definition composerNode :: "Env \<Rightarrow> GraphState \<Rightarrow> node_result" where
  "composerNode env state =
     (if length (personaOutputs state) = 0 then ([SetFinalOutput NO_REPLIES], [])
      else
        (case composerModel env of
           None \<Rightarrow> ([SetFinalOutput (simpleCompose (personaOutputs state))], [])
         | Some model \<Rightarrow>
             (let personaOutputsText =
                    join [0xA, 0xA]
                      (map (\<lambda>out. js ''### '' @ characterName out @ [0xA] @ PersonaOutput.content out)
                         (personaOutputs state));
                  prompt =
                    renderPrompt env AgentComposer
                      [(js ''scene'', truthy_or (map_option scene (worldState state)) UNKNOWN),
                       (js ''time'', truthy_or (map_option time (worldState state)) UNKNOWN),
                       (js ''personaOutputs'', personaOutputsText)];
                  fallback = ([SetFinalOutput (simpleCompose (personaOutputs state))],
                              [Invoke AgentComposer])
              in case model prompt of
                   Failure \<Rightarrow> fallback
                 | response \<Rightarrow>
                     (if response_content response \<noteq> []
                      then ([SetFinalOutput (response_content response)], [Invoke AgentComposer])
                      else fallback))))"

section \<open>The graph\<close>

text \<open>
  The compiled StateGraph: one node runs at a time, its update is merged into the state,
  and the edges give the next node. \<open>fanouts\<close> counts the runs of the Persona node and
  \<open>trail\<close> collects the events. \<open>exec\<close> runs the graph for at most \<open>fuel\<close> nodes.
\<close>

datatype node = ParserN | NarratorN | DirectorN | PersonaN | EvaluateN | ComposerN | END

definition routeAfterEvaluate :: "GraphState \<Rightarrow> node" where
  "routeAfterEvaluate state = (if formatCheckPassed state then ComposerN else PersonaN)"

record Run =
  at :: node
  st :: GraphState
  fanouts :: nat
  trail :: "event list"

definition advance :: "Run \<Rightarrow> node_result \<Rightarrow> (GraphState \<Rightarrow> node) \<Rightarrow> Run" where
  "advance run result next =
     (let state' = merge (st run) (fst result)
      in run\<lparr>at := next state', st := state', trail := trail run @ snd result\<rparr>)"

definition step :: "Env \<Rightarrow> Run \<Rightarrow> fault + Run" where
  "step env run =
     (case at run of
        ParserN \<Rightarrow> Inr (advance run (parserNode env (st run)) (\<lambda>s. NarratorN))
      | NarratorN \<Rightarrow>
          (case narratorNode env (st run) of
             Inl f \<Rightarrow> Inl f
           | Inr result \<Rightarrow> Inr (advance run result (\<lambda>s. DirectorN)))
      | DirectorN \<Rightarrow> Inr (advance run (directorNode env (st run)) (\<lambda>s. PersonaN))
      | PersonaN \<Rightarrow>
          Inr ((advance run (personaNode env (fanouts run) (st run)) (\<lambda>s. EvaluateN))
                 \<lparr>fanouts := fanouts run + 1\<rparr>)
      | EvaluateN \<Rightarrow> Inr (advance run (directorEvaluateNode (st run)) routeAfterEvaluate)
      | ComposerN \<Rightarrow> Inr (advance run (composerNode env (st run)) (\<lambda>s. END))
      | END \<Rightarrow> Inr run)"

datatype outcome = Finished Run | Crashed fault | OutOfFuel

fun exec :: "Env \<Rightarrow> nat \<Rightarrow> Run \<Rightarrow> outcome" where
  "exec env 0 run = (if at run = END then Finished run else OutOfFuel)"
| "exec env (Suc fuel) run =
     (if at run = END then Finished run
      else (case step env run of
              Inl f \<Rightarrow> Crashed f
            | Inr run' \<Rightarrow> exec env fuel run'))"

definition start :: "Message list \<Rightarrow> Run" where
  "start messages = \<lparr>at = ParserN, st = initialState messages, fanouts = 0, trail = []\<rparr>"

definition successor :: "Env \<Rightarrow> Run \<Rightarrow> Run \<Rightarrow> bool" where
  "successor env run run' \<longleftrightarrow> at run \<noteq> END \<and> step env run = Inr run'"

definition reachable :: "Env \<Rightarrow> Message list \<Rightarrow> Run \<Rightarrow> bool" where
  "reachable env messages run \<longleftrightarrow> rtranclp (successor env) (start messages) run"

definition NO_OUTPUT :: jstring where
  "NO_OUTPUT = js ''['' @ [0x65E0, 0x8F93, 0x51FA] @ js '']''"

definition runGraph :: "Env \<Rightarrow> nat \<Rightarrow> Message list \<Rightarrow> (fault + jstring) option" where
  "runGraph env fuel messages =
     (case exec env fuel (start messages) of
        Finished run \<Rightarrow> Some (Inr (truthy_or (Some (finalOutput (st run))) NO_OUTPUT))
      | Crashed f \<Rightarrow> Some (Inl f)
      | OutOfFuel \<Rightarrow> None)"

section \<open>Concrete runs\<close>

text \<open>
  \<open>steps env n\<close> runs \<open>n\<close> nodes of the graph, and \<open>run_after env n messages\<close> is where a run
  on \<open>messages\<close> stands after \<open>n\<close> nodes. \<open>narratorUpdates env state inputs\<close> is a sequence of
  Narrator updates of one state, one for each parsed input. The environments below are used as concrete
  inputs: \<open>offline\<close> has no model configured; \<open>silentPersona\<close> has a Persona model that
  always answers with the empty string; \<open>recoveringPersona\<close> has a Persona model that
  answers with the empty string in the first fan-out and with \<open>hi\<close> afterwards;
  \<open>failing\<close> has a Persona model whose every invocation throws. In \<open>secondFails\<close> the
  Narrator model describes three present characters A, B and C, and the Persona model
  throws for the second character of a fan-out only; \<open>noneFails\<close> is the same with a
  Persona model that never throws. \<open>narratorReplies reply\<close> has a Narrator model that
  answers \<open>reply\<close> (\<open>narratorThrows\<close>: whose invocation throws; \<open>narratorRambles\<close>: that
  answers with an opening brace and a letter). In \<open>directorReplies reply\<close> the Narrator
  model describes two present characters A and B and the Director model answers
  \<open>reply\<close>.
\<close>

fun steps :: "Env \<Rightarrow> nat \<Rightarrow> Run \<Rightarrow> fault + Run" where
  "steps env 0 run = Inr run"
| "steps env (Suc n) run = (case step env run of Inl f \<Rightarrow> Inl f | Inr run' \<Rightarrow> steps env n run')"

definition offline :: Env where
  "offline =
     \<lparr>narratorModel = None, directorModel = None, personaModelConfig = None, composerModel = None,
      renderPrompt = (\<lambda>agent vars. []), stringifyWorld = (\<lambda>w. []),
      stringifySettings = (\<lambda>settings. []), getTableData = None\<rparr>"

definition silentPersona :: Env where
  "silentPersona = offline\<lparr>personaModelConfig := Some (\<lambda>round slot system context. Text [])\<rparr>"

definition recoveringPersona :: Env where
  "recoveringPersona =
     offline\<lparr>personaModelConfig :=
       Some (\<lambda>round slot system context. if round = 0 then Text [] else Text (js ''hi''))\<rparr>"

definition aliceMessages :: "Message list" where
  "aliceMessages =
     [\<lparr>role = js ''system'', Message.content = js ''<char>name: Alice</char>''\<rparr>,
      \<lparr>role = js ''user'', Message.content = js ''Hello''\<rparr>]"

fun narratorUpdates :: "Env \<Rightarrow> GraphState \<Rightarrow> ParsedInput list \<Rightarrow> fault + GraphState" where
  "narratorUpdates env state [] = Inr state"
| "narratorUpdates env state (input # later) =
     (case narratorNode env (state\<lparr>parsedInput := Some input\<rparr>) of
        Inl f \<Rightarrow> Inl f
      | Inr result \<Rightarrow>
          narratorUpdates env (merge (state\<lparr>parsedInput := Some input\<rparr>) (fst result)) later)"

definition run_after :: "Env \<Rightarrow> nat \<Rightarrow> Message list \<Rightarrow> Run" where
  "run_after env n messages =
     (case steps env n (start messages) of Inr run \<Rightarrow> run | Inl f \<Rightarrow> start messages)"

definition threeCharacters :: jstring where
  "threeCharacters =
     js ''{\"scene\":\"inn\",\"time\":\"dusk\",\"characters\":{'' @
     js ''\"A\":{\"name\":\"A\",\"present\":true,\"lastPosition\":\"door\"},'' @
     js ''\"B\":{\"name\":\"B\",\"present\":true,\"lastPosition\":\"bar\"},'' @
     js ''\"C\":{\"name\":\"C\",\"present\":true,\"lastPosition\":\"stairs\"}},'' @
     js ''\"recentEvents\":[]}''"

definition secondFails :: Env where
  "secondFails =
     offline\<lparr>narratorModel := Some (\<lambda>prompt. Text threeCharacters),
              personaModelConfig :=
                Some (\<lambda>round slot system context. if slot = 1 then Failure else Text (js ''ok''))\<rparr>"

definition noneFails :: Env where
  "noneFails =
     offline\<lparr>narratorModel := Some (\<lambda>prompt. Text threeCharacters),
              personaModelConfig := Some (\<lambda>round slot system context. Text (js ''ok''))\<rparr>"

definition helloMessages :: "Message list" where
  "helloMessages = [\<lparr>role = js ''user'', Message.content = js ''Hello''\<rparr>]"

definition failing :: Env where
  "failing = offline\<lparr>personaModelConfig := Some (\<lambda>round slot system context. Failure)\<rparr>"

definition narratorThrows :: Env where
  "narratorThrows = offline\<lparr>narratorModel := Some (\<lambda>prompt. Failure)\<rparr>"

definition narratorRambles :: Env where
  "narratorRambles = offline\<lparr>narratorModel := Some (\<lambda>prompt. Text (js ''{a''))\<rparr>"



definition elevenEvents :: jstring where
  "elevenEvents =
     js ''{\"scene\":\"inn\",\"time\":\"dusk\",\"characters\":{},'' @
     js ''\"recentEvents\":[\"1\",\"2\",\"3\",\"4\",\"5\",\"6\",\"7\",\"8\",\"9\",\"10\",\"11\"]}''"

definition narratorReplies :: "jstring \<Rightarrow> Env" where
  "narratorReplies reply = offline\<lparr>narratorModel := Some (\<lambda>prompt. Text reply)\<rparr>"

definition nestedMessages :: "Message list" where
  "nestedMessages = [\<lparr>role = js ''user'', Message.content = js ''<a><b>x</b></a>Hello''\<rparr>]"

definition styledMessages :: "Message list" where
  "styledMessages =
     [\<lparr>role = js ''user'', Message.content = js ''<fiction_style>X</fiction_style>Hello''\<rparr>]"

definition saying :: "jstring \<Rightarrow> ParsedInput" where
  "saying words =
     \<lparr>presetInstructions = [], characterSettings = [], chatHistory = [], userInput = words,
      tableData = None\<rparr>"

definition twelveInputs :: "ParsedInput list" where
  "twelveInputs =
     map saying [js ''a'', js ''b'', js ''c'', js ''d'', js ''e'', js ''f'', js ''g'', js ''h'',
                 js ''i'', js ''j'', js ''k'', js ''l'']"

section \<open>Predicates of the statements\<close>


definition fanout_event :: "event \<Rightarrow> bool" where
  "fanout_event e = (case e of Generate n \<Rightarrow> True | Invoke a \<Rightarrow> a = AgentPersona \<or> a = AgentComposer)"

definition prelude :: "Run \<Rightarrow> bool" where
  "prelude run \<longleftrightarrow>
     (at run = ParserN \<or> at run = NarratorN \<or> at run = DirectorN) \<and>
     personaOutputs (st run) = [] \<and> filter fanout_event (trail run) = []"

definition same_generation :: "Env \<Rightarrow> Env \<Rightarrow> nat \<Rightarrow> nat \<Rightarrow> bool" where
  "same_generation env env' round slot \<longleftrightarrow>
     renderPrompt env' = renderPrompt env \<and>
     (case (personaModelConfig env, personaModelConfig env') of
        (None, None) \<Rightarrow> True
      | (Some model, Some model') \<Rightarrow>
          (\<forall>system context. model' round slot system context = model round slot system context)
      | _ \<Rightarrow> False)"

definition generation_failed :: "Env \<Rightarrow> nat \<Rightarrow> nat \<Rightarrow> jstring \<Rightarrow> jstring \<Rightarrow> jstring jsobject \<Rightarrow> bool" where
  "generation_failed env round slot charName context presets \<longleftrightarrow>
     (case personaModelConfig env of
        None \<Rightarrow> True
      | Some model \<Rightarrow> model round slot (buildSystemPrompt env charName presets) context = Failure)"

definition context_of :: "GraphState \<Rightarrow> jstring \<Rightarrow> jstring" where
  "context_of state charName = truthy_or (obj_get (characterContexts state) charName) []"

definition fan_out :: "Env \<Rightarrow> nat \<Rightarrow> GraphState \<Rightarrow> PersonaOutput list" where
  "fan_out env round state =
     concat (map (\<lambda>a. case a of SetPersonaOutputs outs \<Rightarrow> outs | _ \<Rightarrow> [])
               (fst (personaNode env round state)))"

definition presets_of :: "GraphState \<Rightarrow> jstring jsobject" where
  "presets_of state = (case parsedInput state of None \<Rightarrow> [] | Some input \<Rightarrow> presetInstructions input)"

definition priorEvents :: "GraphState \<Rightarrow> jstring list" where
  "priorEvents state = (case worldState state of None \<Rightarrow> [] | Some w \<Rightarrow> recentEvents w)"

definition resultEvents :: "fault + GraphState \<Rightarrow> jstring list option" where
  "resultEvents r =
     (case r of Inl f \<Rightarrow> None | Inr state \<Rightarrow> map_option recentEvents (worldState state))"

definition object_frame :: "frame \<Rightarrow> bool" where
  "object_frame f = (case f of FObj kvs k \<Rightarrow> True | FArr xs \<Rightarrow> False)"

definition grounded :: "frame list \<Rightarrow> bool" where
  "grounded stack \<longleftrightarrow> stack \<noteq> [] \<and> object_frame (last stack)"

definition object_bottom :: "pstate \<Rightarrow> bool" where
  "object_bottom ps =
     (case ps of (m, stack) \<Rightarrow>
        (case m of
           MDone v \<Rightarrow> (case v of JObj kvs \<Rightarrow> True | _ \<Rightarrow> False)
         | MArrStart \<Rightarrow> grounded stack \<and> \<not> object_frame (hd stack)
         | _ \<Rightarrow> grounded stack))"

definition plain_mode :: "mode \<Rightarrow> bool" where
  "plain_mode m = (case m of MDone v \<Rightarrow> False | MArrStart \<Rightarrow> False | _ \<Rightarrow> True)"

section \<open>Updates and steps\<close>

lemma merge_Nil: "merge x [] = x"
  by (simp add: merge_def)

lemma merge_Cons: "merge x (a # u) = merge (reducer x a) u"
  by (simp add: merge_def)

lemmas merge_simps = merge_Nil merge_Cons

lemma trim_Nil: "trim [] = []"
  by (simp add: trim_def)

lemma allValid_iff:
  "allValid outputs \<longleftrightarrow> (\<forall>out \<in> set outputs. trim (PersonaOutput.content out) \<noteq> [])"
  by (auto simp: allValid_def list_all_iff trim_Nil)

text \<open>What each node writes.\<close>

lemma parser_update:
  "\<exists>input. parserNode env s = ([SetParsedInput (Some input)], [])"
  by (simp add: parserNode_def split: prod.splits)

lemma narrator_update:
  "narratorNode env s = Inr result \<Longrightarrow>
     (\<exists>e. fst result = [SetError e]) \<or> (\<exists>w. fst result = [SetWorldState w])"
  by (auto simp: narratorNode_def Let_def split: option.splits llm_result.splits)

lemma narrator_events:
  "narratorNode env s = Inr result \<Longrightarrow> snd result = [] \<or> snd result = [Invoke AgentNarrator]"
  by (auto simp: narratorNode_def Let_def split: option.splits llm_result.splits)

lemma director_update:
  "(\<exists>e. fst (directorNode env s) = [SetError e]) \<or>
   (\<exists>a c. fst (directorNode env s) = [SetActiveCharacters a, SetCharacterContexts c])"
  by (auto simp: directorNode_def Let_def split: option.splits llm_result.splits json.splits)

lemma persona_update: "\<exists>outs. fst (personaNode env k s) = [SetPersonaOutputs outs]"
  by (simp add: personaNode_def Let_def split: option.splits)

lemma evaluate_update:
  "directorEvaluateNode s =
     (if allValid (personaOutputs s) \<or> maxRetries \<le> retryCount s then ([SetFormatCheckPassed True], [])
      else ([SetFormatCheckPassed False, SetRetryCount (retryCount s + 1), SetPersonaOutputs []], []))"
  by (simp add: directorEvaluateNode_def)

lemma composer_update: "\<exists>out. fst (composerNode env s) = [SetFinalOutput out]"
  by (simp add: composerNode_def Let_def split: option.splits llm_result.splits)

lemma successor_cases:
  assumes "successor env y z"
  obtains
    (parser) input where "at y = ParserN" "at z = NarratorN"
      "st z = merge (st y) [SetParsedInput (Some input)]" "trail z = trail y" "fanouts z = fanouts y"
  | (narrator_error) e evs where "at y = NarratorN" "at z = DirectorN"
      "st z = merge (st y) [SetError e]" "trail z = trail y @ evs"
      "evs = [] \<or> evs = [Invoke AgentNarrator]" "fanouts z = fanouts y"
  | (narrator) w evs where "at y = NarratorN" "at z = DirectorN"
      "st z = merge (st y) [SetWorldState w]" "trail z = trail y @ evs"
      "evs = [] \<or> evs = [Invoke AgentNarrator]" "fanouts z = fanouts y"
  | (director) "at y = DirectorN" "at z = PersonaN"
      "st z = merge (st y) (fst (directorNode env (st y)))"
      "trail z = trail y @ snd (directorNode env (st y))" "fanouts z = fanouts y"
  | (persona) "at y = PersonaN" "at z = EvaluateN"
      "st z = merge (st y) (fst (personaNode env (fanouts y) (st y)))"
      "trail z = trail y @ snd (personaNode env (fanouts y) (st y))" "fanouts z = fanouts y + 1"
  | (evaluate) "at y = EvaluateN" "at z = routeAfterEvaluate (st z)"
      "st z = merge (st y) (fst (directorEvaluateNode (st y)))"
      "trail z = trail y" "fanouts z = fanouts y"
  | (composer) "at y = ComposerN" "at z = END"
      "st z = merge (st y) (fst (composerNode env (st y)))"
      "trail z = trail y @ snd (composerNode env (st y))" "fanouts z = fanouts y"
proof (cases "at y")
  case ParserN
  obtain input where p: "parserNode env (st y) = ([SetParsedInput (Some input)], [])"
    using parser_update[of env "st y"] by blast
  with assms ParserN show ?thesis
    by (intro parser[of input]) (auto simp: successor_def step_def advance_def Let_def)
next
  case NarratorN
  with assms obtain result where r: "narratorNode env (st y) = Inr result"
    and z: "z = advance y result (\<lambda>s. DirectorN)"
    by (auto simp: successor_def step_def split: sum.splits)
  from narrator_update[OF r] narrator_events[OF r] NarratorN z show ?thesis
    by (auto simp: advance_def Let_def intro: narrator_error narrator)
next
  case DirectorN
  with assms show ?thesis
    by (intro director) (auto simp: successor_def step_def advance_def Let_def)
next
  case PersonaN
  with assms show ?thesis
    by (intro persona) (auto simp: successor_def step_def advance_def Let_def)
next
  case EvaluateN
  with assms show ?thesis
    by (intro evaluate) (auto simp: successor_def step_def advance_def Let_def evaluate_update)
next
  case ComposerN
  with assms show ?thesis
    by (intro composer) (auto simp: successor_def step_def advance_def Let_def)
next
  case END
  with assms show ?thesis by (simp add: successor_def)
qed

lemma director_keeps:
  "retryCount (merge s (fst (directorNode env s))) = retryCount s"
  "parsedInput (merge s (fst (directorNode env s))) = parsedInput s"
  "personaOutputs (merge s (fst (directorNode env s))) = personaOutputs s"
  using director_update[of env s] by (auto simp: merge_simps)

lemma persona_keeps:
  "retryCount (merge s (fst (personaNode env k s))) = retryCount s"
  "parsedInput (merge s (fst (personaNode env k s))) = parsedInput s"
  using persona_update[of env k s] by (auto simp: merge_simps)

lemma composer_keeps:
  "retryCount (merge s (fst (composerNode env s))) = retryCount s"
  "parsedInput (merge s (fst (composerNode env s))) = parsedInput s"
  using composer_update[of env s] by (auto simp: merge_simps)

lemma evaluate_keeps:
  "parsedInput (merge s (fst (directorEvaluateNode s))) = parsedInput s"
  "personaOutputs (merge s (fst (directorEvaluateNode s))) = personaOutputs s"
  by (simp_all add: evaluate_update merge_simps)



lemma start_fields:
  "at (start messages) = ParserN" "retryCount (st (start messages)) = 0"
  "personaOutputs (st (start messages)) = []" "trail (start messages) = []"
  "fanouts (start messages) = 0" "parsedInput (st (start messages)) = None"
  by (simp_all add: start_def initialState_def defaultState_def merge_simps)


lemma successor_parsed:
  assumes "successor env y z" "at y \<noteq> ParserN \<longrightarrow> parsedInput (st y) \<noteq> None"
  shows "at z \<noteq> ParserN \<and> parsedInput (st z) \<noteq> None"
  using assms(1)
  by (cases rule: successor_cases)
     (use assms(2) in \<open>auto simp: merge_simps director_keeps persona_keeps composer_keeps
        evaluate_keeps routeAfterEvaluate_def\<close>)

lemma reachable_parsed:
  "reachable env messages run \<Longrightarrow> at run \<noteq> ParserN \<longrightarrow> parsedInput (st run) \<noteq> None"
  unfolding reachable_def
  by (induction rule: rtranclp_induct) (auto simp: start_fields dest: successor_parsed)

lemma successor_prelude:
  assumes "successor env y z" "at z = ParserN \<or> at z = NarratorN \<or> at z = DirectorN" "prelude y"
  shows "prelude z"
  using assms(1)
  by (cases rule: successor_cases)
     (use assms(2,3) in \<open>auto simp: prelude_def merge_simps routeAfterEvaluate_def fanout_event_def\<close>)

lemma successor_before:
  assumes "successor env y z" "at z = ParserN \<or> at z = NarratorN \<or> at z = DirectorN"
  shows "at y = ParserN \<or> at y = NarratorN"
  using assms(1)
  by (cases rule: successor_cases)
     (use assms(2) in \<open>auto simp: routeAfterEvaluate_def split: if_splits\<close>)

lemma reachable_prelude:
  "reachable env messages run \<Longrightarrow>
     at run = ParserN \<or> at run = NarratorN \<or> at run = DirectorN \<Longrightarrow> prelude run"
  unfolding reachable_def
proof (induction rule: rtranclp_induct)
  case base
  then show ?case by (simp add: prelude_def start_fields)
next
  case (step y z)
  from successor_before[OF step.hyps(2) step.prems] have "prelude y"
    using step.IH by blast
  with step show ?case by (blast intro: successor_prelude)
qed

lemma exec_END: "at run = END \<Longrightarrow> exec env n run = Finished run"
  by (cases n) simp_all

lemma exec_step:
  "at run \<noteq> END \<Longrightarrow> step env run = Inr run' \<Longrightarrow> exec env (Suc n) run = exec env n run'"
  by simp

lemma exec_successor: "successor env run run' \<Longrightarrow> exec env (Suc n) run = exec env n run'"
  by (simp add: successor_def)

declare exec.simps [simp del]


lemma successor_director:
  "at run = DirectorN \<Longrightarrow> successor env run (advance run (directorNode env (st run)) (\<lambda>s. PersonaN))"
  by (simp add: successor_def step_def)

lemma successor_persona:
  "at run = PersonaN \<Longrightarrow>
     successor env run
       ((advance run (personaNode env (fanouts run) (st run)) (\<lambda>s. EvaluateN))\<lparr>fanouts := fanouts run + 1\<rparr>)"
  by (simp add: successor_def step_def)

lemma successor_evaluate:
  "at run = EvaluateN \<Longrightarrow>
     successor env run (advance run (directorEvaluateNode (st run)) routeAfterEvaluate)"
  by (simp add: successor_def step_def)

lemma successor_composer:
  "at run = ComposerN \<Longrightarrow> successor env run (advance run (composerNode env (st run)) (\<lambda>s. END))"
  by (simp add: successor_def step_def)


lemma advance_fields:
  "at (advance run result next) = next (merge (st run) (fst result))"
  "st (advance run result next) = merge (st run) (fst result)"
  "trail (advance run result next) = trail run @ snd result"
  "fanouts (advance run result next) = fanouts run"
  by (simp_all add: advance_def Let_def)








lemma steps_reaches: "steps env n run = Inr run' \<Longrightarrow> rtranclp (successor env) run run'"
proof (induction n arbitrary: run)
  case 0
  then show ?case by simp
next
  case (Suc n)
  then obtain mid where s: "step env run = Inr mid" and r: "steps env n mid = Inr run'"
    by (auto split: sum.splits)
  show ?case
  proof (cases "at run = END")
    case True
    with s have "mid = run" by (simp add: step_def)
    with Suc.IH[OF r] show ?thesis by simp
  next
    case False
    with s have "successor env run mid" by (simp add: successor_def)
    from this Suc.IH[OF r] show ?thesis by (rule converse_rtranclp_into_rtranclp)
  qed
qed

lemma run_after_reachable: "reachable env messages (run_after env n messages)"
  by (cases "steps env n (start messages)")
     (auto simp: run_after_def reachable_def dest: steps_reaches)

lemma exec_more_fuel:
  "exec env n run = Finished final \<Longrightarrow> exec env (n + m) run = Finished final"
proof (induction n arbitrary: run)
  case 0
  then show ?case by (cases "at run = END") (simp_all add: exec.simps exec_END)
next
  case (Suc n)
  show ?case
  proof (cases "at run = END")
    case True
    with Suc.prems show ?thesis by (simp add: exec_END)
  next
    case False
    with Suc.prems obtain run' where s: "step env run = Inr run'" and e: "exec env n run' = Finished final"
      by (auto simp: exec.simps split: sum.splits)
    from Suc.IH[OF e] False s show ?thesis by (simp add: exec.simps)
  qed
qed

lemma reachable_position:
  assumes "reachable env messages run"
  shows "(at run = ParserN \<longrightarrow> run = start messages) \<and>
         (at run = NarratorN \<longrightarrow> (\<forall>n. exec env (Suc n) (start messages) = exec env n run)) \<and>
         (at run = DirectorN \<longrightarrow> (\<forall>n. exec env (Suc (Suc n)) (start messages) = exec env n run))"
  using assms unfolding reachable_def
proof (induction rule: rtranclp_induct)
  case base
  then show ?case by (simp add: start_fields)
next
  case (step y z)
  from step.hyps(2) show ?case
  proof (cases rule: successor_cases)
    case (parser input)
    with step.IH have "y = start messages" by simp
    with exec_successor[OF step.hyps(2)] parser show ?thesis by simp
  next
    case (narrator_error e evs)
    with step.IH have "\<forall>n. exec env (Suc n) (start messages) = exec env n y" by simp
    with exec_successor[OF step.hyps(2)] narrator_error show ?thesis by simp
  next
    case (narrator w evs)
    with step.IH have "\<forall>n. exec env (Suc n) (start messages) = exec env n y" by simp
    with exec_successor[OF step.hyps(2)] narrator show ?thesis by simp
  next
    case evaluate
    then show ?thesis by (simp add: routeAfterEvaluate_def)
  qed simp_all
qed

lemma runGraph_finished:
  "exec env n (start messages) = Finished final \<Longrightarrow> finalOutput (st final) \<noteq> [] \<Longrightarrow>
     runGraph env n messages = Some (Inr (finalOutput (st final)))"
  by (simp add: runGraph_def truthy_or_def)

section \<open>The fan-out and the nodes around it\<close>

lemma not_space_brackets: "\<not> is_space 0x5B" "\<not> is_space 0x5D"
  by (simp_all add: is_space_def)

lemma trim_bracketed: "trim (0x5B # middle @ [0x5D]) \<noteq> []"
  by (simp add: trim_def not_space_brackets)

lemma placeholder_nonempty:
  "trim (notConfiguredReply charName) \<noteq> []" "trim (generationErrorReply charName) \<noteq> []"
proof -
  have "\<exists>middle. notConfiguredReply charName = 0x5B # middle @ [0x5D]"
    by (simp add: notConfiguredReply_def js_def)
  then show "trim (notConfiguredReply charName) \<noteq> []"
    using trim_bracketed by auto
  have "\<exists>middle. generationErrorReply charName = 0x5B # middle @ [0x5D]"
    by (simp add: generationErrorReply_def js_def)
  then show "trim (generationErrorReply charName) \<noteq> []"
    using trim_bracketed by auto
qed

lemma generate_name:
  "characterName (fst (generatePersonaResponse env k slot charName context presets)) = charName"
  by (simp add: generatePersonaResponse_def split: option.splits llm_result.splits)

lemma generate_failed:
  "generation_failed env k slot charName context presets \<Longrightarrow>
     \<not> formatValid (fst (generatePersonaResponse env k slot charName context presets)) \<and>
     PersonaOutput.content (fst (generatePersonaResponse env k slot charName context presets)) =
       (if personaModelConfig env = None then notConfiguredReply charName
        else generationErrorReply charName)"
  by (auto simp: generatePersonaResponse_def generation_failed_def split: option.splits)

lemma generate_succeeded:
  "\<not> generation_failed env k slot charName context presets \<Longrightarrow>
     \<exists>model. personaModelConfig env = Some model \<and>
       model k slot (buildSystemPrompt env charName presets) context \<noteq> Failure \<and>
       PersonaOutput.content (fst (generatePersonaResponse env k slot charName context presets)) =
         response_content (model k slot (buildSystemPrompt env charName presets) context) \<and>
       formatValid (fst (generatePersonaResponse env k slot charName context presets)) =
         (response_content (model k slot (buildSystemPrompt env charName presets) context) \<noteq> [])"
  by (auto simp: generatePersonaResponse_def generation_failed_def split: option.splits llm_result.splits)

lemma generate_same:
  "same_generation env env' k slot \<Longrightarrow>
     fst (generatePersonaResponse env' k slot charName context presets) =
     fst (generatePersonaResponse env k slot charName context presets)"
  by (auto simp: generatePersonaResponse_def same_generation_def buildSystemPrompt_def
           split: option.splits llm_result.splits)

lemma personaNode_outputs:
  "parsedInput s = Some input \<Longrightarrow>
     fst (personaNode env k s) =
       [SetPersonaOutputs
          (map (\<lambda>(slot, charName).
                  fst (generatePersonaResponse env k slot charName (context_of s charName)
                         (presetInstructions input)))
             (enumerate 0 (activeCharacters s)))]"
  by (simp add: personaNode_def Let_def context_of_def comp_def case_prod_unfold)

lemma personaNode_events:
  "activeCharacters s = [] \<Longrightarrow> snd (personaNode env k s) = []"
  by (simp add: personaNode_def split: option.splits)

lemma fan_out_eq:
  "parsedInput s = Some input \<Longrightarrow>
     fan_out env k s =
       map (\<lambda>(slot, charName).
              fst (generatePersonaResponse env k slot charName (context_of s charName)
                     (presetInstructions input)))
         (enumerate 0 (activeCharacters s))"
  by (simp add: fan_out_def personaNode_outputs)

lemma fan_out_nth:
  "parsedInput s = Some input \<Longrightarrow> slot < length (activeCharacters s) \<Longrightarrow>
     fan_out env k s ! slot =
       fst (generatePersonaResponse env k slot (activeCharacters s ! slot)
              (context_of s (activeCharacters s ! slot)) (presetInstructions input))"
  by (simp add: fan_out_eq nth_enumerate_eq)

lemma fan_out_length:
  "parsedInput s = Some input \<Longrightarrow> length (fan_out env k s) = length (activeCharacters s)"
  by (simp add: fan_out_eq)

lemma fan_out_names:
  "parsedInput s = Some input \<Longrightarrow> map characterName (fan_out env k s) = activeCharacters s"
  by (rule nth_equalityI) (simp_all add: fan_out_length fan_out_nth generate_name)

lemma fan_out_update: "fst (personaNode env k s) = [SetPersonaOutputs (fan_out env k s)]"
  using persona_update[of env k s] by (auto simp: fan_out_def)

lemma allValid_append: "allValid (xs @ ys) \<longleftrightarrow> allValid xs \<and> allValid ys"
  by (simp add: allValid_def)

lemma after_fan_out:
  "personaOutputs (merge s (fst (personaNode env k s))) = personaOutputs s @ fan_out env k s"
  "retryCount (merge s (fst (personaNode env k s))) = retryCount s"
  by (simp_all add: fan_out_update merge_simps)

lemma fan_out_without_input: "parsedInput s = None \<Longrightarrow> fan_out env k s = []"
  by (simp add: fan_out_def personaNode_def)

lemma director_nobody:
  assumes "parsedInput s = Some input" "worldState s = Some world" "presentCharacters world = []"
  shows "directorNode env s = ([SetActiveCharacters [], SetCharacterContexts []], [])"
  using assms by (simp add: directorNode_def Let_def)

lemma persona_nobody:
  assumes "activeCharacters s = []"
  shows "personaNode env k s = ([SetPersonaOutputs []], [])"
  using assms by (simp add: personaNode_def split: option.splits)

lemma composer_nothing:
  assumes "personaOutputs s = []"
  shows "composerNode env s = ([SetFinalOutput NO_REPLIES], [])"
  using assms by (simp add: composerNode_def)

section \<open>JSON texts that start with a brace\<close>

lemma complete_cases:
  assumes "complete v stack = Some ps"
  shows "(stack = [] \<and> ps = (MDone v, [])) \<or>
         (\<exists>f rest f'. stack = f # rest \<and> ps = (MAfter, f' # rest) \<and> object_frame f' = object_frame f)"
proof (cases stack)
  case Nil
  with assms show ?thesis by (simp add: complete_def)
next
  case (Cons f rest)
  show ?thesis
  proof (cases f)
    case (FArr xs)
    with assms Cons show ?thesis by (auto simp: complete_def object_frame_def)
  next
    case (FObj kvs k)
    with assms Cons show ?thesis by (cases k) (auto simp: complete_def object_frame_def)
  qed
qed

lemma grounded_replace_top:
  "grounded (f # rest) \<Longrightarrow> object_frame f' = object_frame f \<Longrightarrow> grounded (f' # rest)"
  by (auto simp: grounded_def split: if_splits)

lemma complete_keeps:
  assumes "grounded stack" "complete v stack = Some ps"
  shows "object_bottom ps"
proof -
  from complete_cases[OF assms(2)] assms(1)
  obtain f rest f' where "stack = f # rest" "ps = (MAfter, f' # rest)" "object_frame f' = object_frame f"
    by (auto simp: grounded_def)
  note r = this
  from assms(1) r(1,3) have "grounded (f' # rest)"
    by (auto intro: grounded_replace_top)
  with r(2) show ?thesis
    by (simp add: object_bottom_def)
qed

lemma complete_pop_array:
  assumes "grounded (f # rest)" "\<not> object_frame f" "complete v rest = Some ps"
  shows "object_bottom ps"
proof -
  from assms(1,2) have "grounded rest"
    by (cases rest) (auto simp: grounded_def)
  from complete_keeps[OF this assms(3)] show ?thesis .
qed

lemma complete_pop_object:
  assumes "grounded (f # rest)" "complete (JObj kvs) rest = Some ps"
  shows "object_bottom ps"
proof (cases rest)
  case Nil
  with assms(2) show ?thesis by (auto simp: complete_def object_bottom_def)
next
  case (Cons g more)
  with assms(1) have "grounded rest" by (simp add: grounded_def)
  from complete_keeps[OF this assms(2)] show ?thesis .
qed

lemma start_value_keeps:
  assumes "grounded stack" "start_value c stack = Some ps"
  shows "object_bottom ps"
proof -
  from assms(2) consider
    (object) "ps = (MObjStart, FObj [] None # stack)"
    | (array) "ps = (MArrStart, FArr [] # stack)"
    | (other) m where "ps = (m, stack)" "m \<noteq> MArrStart" "\<And>v. m \<noteq> MDone v"
    unfolding start_value_def by (auto split: if_splits)
  then show ?thesis
  proof cases
    case object
    with assms(1) show ?thesis by (simp add: object_bottom_def grounded_def)
  next
    case array
    with assms(1) show ?thesis by (simp add: object_bottom_def grounded_def object_frame_def)
  next
    case other
    with assms(1) show ?thesis by (cases m) (auto simp: object_bottom_def)
  qed
qed

lemma after_value_array:
  "after_value c (FArr xs # rest) = Some ps \<Longrightarrow> \<not> is_json_ws c \<Longrightarrow>
     ps = (MValue, FArr xs # rest) \<or> complete (JArr (rev xs)) rest = Some ps"
  by (simp add: after_value_def split: if_splits)

lemma after_value_object:
  "after_value c (FObj kvs k # rest) = Some ps \<Longrightarrow> \<not> is_json_ws c \<Longrightarrow>
     ps = (MKey, FObj kvs k # rest) \<or> complete (JObj kvs) rest = Some ps"
  by (simp add: after_value_def split: if_splits)

lemma after_value_keeps:
  assumes "grounded stack" "after_value c stack = Some ps"
  shows "object_bottom ps"
proof (cases "is_json_ws c")
  case True
  with assms have "ps = (MAfter, stack)" by (simp add: after_value_def)
  with assms(1) show ?thesis by (simp add: object_bottom_def)
next
  case False
  from assms(1) obtain f rest where s: "stack = f # rest" by (cases stack) (auto simp: grounded_def)
  show ?thesis
  proof (cases f)
    case (FArr xs)
    from after_value_array[OF assms(2)[unfolded s FArr] False]
    show ?thesis
    proof
      assume "ps = (MValue, FArr xs # rest)"
      with assms(1) s FArr show ?thesis by (simp add: object_bottom_def)
    next
      assume c: "complete (JArr (rev xs)) rest = Some ps"
      have "\<not> object_frame (FArr xs)" by (simp add: object_frame_def)
      from complete_pop_array[OF assms(1)[unfolded s FArr] this c] show ?thesis .
    qed
  next
    case (FObj kvs k)
    from after_value_object[OF assms(2)[unfolded s FObj] False]
    show ?thesis
    proof
      assume "ps = (MKey, FObj kvs k # rest)"
      with assms(1) s FObj show ?thesis by (simp add: object_bottom_def)
    next
      assume c: "complete (JObj kvs) rest = Some ps"
      from complete_pop_object[OF assms(1)[unfolded s FObj] c] show ?thesis .
    qed
  qed
qed

lemma end_number_keeps:
  assumes "grounded stack" "end_number lexeme c stack = Some ps"
  shows "object_bottom ps"
proof (cases "complete (JNum (rev lexeme)) stack")
  case None
  with assms(2) show ?thesis by (simp add: end_number_def)
next
  case (Some r)
  from complete_cases[OF Some] assms(1)
  obtain f rest f' where r: "stack = f # rest" "r = (MAfter, f' # rest)" "object_frame f' = object_frame f"
    by (auto simp: grounded_def)
  from assms(1) r have g: "grounded (f' # rest)"
    by (auto intro: grounded_replace_top)
  from assms(2) Some r have "after_value c (f' # rest) = Some ps"
    by (simp add: end_number_def)
  from after_value_keeps[OF g this] show ?thesis .
qed

lemma number_step_keeps:
  assumes "grounded stack" "number_step ns lexeme c stack = Some ps"
  shows "object_bottom ps"
proof -
  from assms(2) consider
    (continue) ns' where "ps = (MNum ns' (c # lexeme), stack)"
    | (finish) "end_number lexeme c stack = Some ps"
    by (cases ns) (auto simp: number_step_def Let_def split: if_splits)
  then show ?thesis
  proof cases
    case continue
    with assms(1) show ?thesis by (simp add: object_bottom_def)
  next
    case finish
    from end_number_keeps[OF assms(1) finish] show ?thesis .
  qed
qed

lemma end_string_keeps:
  assumes "grounded stack" "end_string k text stack = Some ps"
  shows "object_bottom ps"
proof (cases k)
  case True
  from assms(1) obtain f rest where s: "stack = f # rest" by (cases stack) (auto simp: grounded_def)
  from assms True s show ?thesis
    by (cases f) (auto simp: end_string_def object_bottom_def grounded_def object_frame_def)
next
  case False
  with assms show ?thesis by (auto simp: end_string_def intro: complete_keeps)
qed

lemma plain_bottom: "grounded stack \<Longrightarrow> plain_mode m \<Longrightarrow> object_bottom (m, stack)"
  by (cases m) (simp_all add: object_bottom_def plain_mode_def)

lemma step_MValue:
  "json_step (MValue, stack) c = Some ps' \<Longrightarrow>
     ps' = (MValue, stack) \<or> start_value c stack = Some ps'"
  by (simp add: json_step_def split: if_splits)

lemma step_MArrStart:
  "json_step (MArrStart, stack) c = Some ps' \<Longrightarrow>
     ps' = (MArrStart, stack) \<or> complete (JArr []) (tl stack) = Some ps' \<or>
     start_value c stack = Some ps'"
  by (simp add: json_step_def split: if_splits)

lemma step_MObjStart:
  "json_step (MObjStart, stack) c = Some ps' \<Longrightarrow>
     ps' = (MObjStart, stack) \<or> complete (JObj []) (tl stack) = Some ps' \<or>
     ps' = (MStr True [], stack)"
  by (simp add: json_step_def split: if_splits)

lemma step_MKey:
  "json_step (MKey, stack) c = Some ps' \<Longrightarrow> ps' = (MKey, stack) \<or> ps' = (MStr True [], stack)"
  by (simp add: json_step_def split: if_splits)

lemma step_MColon:
  "json_step (MColon, stack) c = Some ps' \<Longrightarrow> ps' = (MColon, stack) \<or> ps' = (MValue, stack)"
  by (simp add: json_step_def split: if_splits)

lemma step_MAfter: "json_step (MAfter, stack) c = after_value c stack"
  by (simp add: json_step_def)

lemma step_MDone: "json_step (MDone v, stack) c = Some ps' \<Longrightarrow> ps' = (MDone v, stack)"
  by (simp add: json_step_def split: if_splits)

lemma step_MStr:
  "json_step (MStr k acc, stack) c = Some ps' \<Longrightarrow>
     end_string k (rev acc) stack = Some ps' \<or> ps' = (MEsc k acc, stack) \<or>
     ps' = (MStr k (c # acc), stack)"
  by (simp add: json_step_def split: if_splits)

lemma step_MEsc:
  "json_step (MEsc k acc, stack) c = Some ps' \<Longrightarrow> \<exists>m. ps' = (m, stack) \<and> plain_mode m"
  by (auto simp: json_step_def plain_mode_def split: if_splits)

lemma step_MUni:
  "json_step (MUni k acc n v, stack) c = Some ps' \<Longrightarrow> \<exists>m. ps' = (m, stack) \<and> plain_mode m"
  by (auto simp: json_step_def plain_mode_def split: if_splits option.splits)

lemma step_MNum: "json_step (MNum ns lexeme, stack) c = number_step ns lexeme c stack"
  by (simp add: json_step_def)

lemma step_MLit:
  "json_step (MLit v rest, stack) c = Some ps' \<Longrightarrow>
     complete v stack = Some ps' \<or> (\<exists>rs. ps' = (MLit v rs, stack))"
  by (auto simp: json_step_def split: if_splits list.splits)

lemma json_step_keeps:
  assumes "object_bottom ps" "json_step ps c = Some ps'"
  shows "object_bottom ps'"
proof -
  obtain m stack where ps: "ps = (m, stack)" by (cases ps)
  note step = assms(2)[unfolded ps]
  have g: "grounded stack" if "\<And>v. m \<noteq> MDone v"
    using assms(1) that unfolding ps by (cases m) (auto simp: object_bottom_def)
  show ?thesis
  proof (cases m)
    case MValue
    from step_MValue[OF step[unfolded MValue]] g MValue show ?thesis
      by (auto intro: plain_bottom start_value_keeps simp: plain_mode_def)
  next
    case MArrStart
    with assms(1) ps have a: "\<not> object_frame (hd stack)" by (simp add: object_bottom_def)
    from g MArrStart have gs: "grounded stack" by simp
    then obtain f rest where s: "stack = f # rest" by (cases stack) (auto simp: grounded_def)
    from step_MArrStart[OF step[unfolded MArrStart]] show ?thesis
    proof (elim disjE)
      assume "ps' = (MArrStart, stack)"
      with gs a show ?thesis by (simp add: object_bottom_def)
    next
      assume "complete (JArr []) (tl stack) = Some ps'"
      then have "complete (JArr []) rest = Some ps'" by (simp add: s)
      from complete_pop_array[OF gs[unfolded s] a[unfolded s list.sel] this] show ?thesis .
    next
      assume "start_value c stack = Some ps'"
      from start_value_keeps[OF gs this] show ?thesis .
    qed
  next
    case MObjStart
    from g MObjStart have gs: "grounded stack" by simp
    then obtain f rest where s: "stack = f # rest" by (cases stack) (auto simp: grounded_def)
    from step_MObjStart[OF step[unfolded MObjStart]] show ?thesis
    proof (elim disjE)
      assume "ps' = (MObjStart, stack)"
      with gs show ?thesis by (simp add: object_bottom_def)
    next
      assume "complete (JObj []) (tl stack) = Some ps'"
      then have "complete (JObj []) rest = Some ps'" by (simp add: s)
      from complete_pop_object[OF gs[unfolded s] this] show ?thesis .
    next
      assume "ps' = (MStr True [], stack)"
      with gs show ?thesis by (simp add: object_bottom_def)
    qed
  next
    case MKey
    from step_MKey[OF step[unfolded MKey]] g MKey show ?thesis
      by (auto simp: object_bottom_def)
  next
    case MColon
    from step_MColon[OF step[unfolded MColon]] g MColon show ?thesis
      by (auto simp: object_bottom_def)
  next
    case MAfter
    from step MAfter have "after_value c stack = Some ps'" by (simp add: step_MAfter)
    moreover from g MAfter have "grounded stack" by simp
    ultimately show ?thesis by (rule after_value_keeps[rotated])
  next
    case (MDone v)
    from step_MDone[OF step[unfolded MDone]] assms(1) ps MDone show ?thesis by simp
  next
    case (MStr k acc)
    from g MStr have gs: "grounded stack" by simp
    from step_MStr[OF step[unfolded MStr]] show ?thesis
    proof (elim disjE)
      assume "end_string k (rev acc) stack = Some ps'"
      from end_string_keeps[OF gs this] show ?thesis .
    qed (use gs in \<open>simp_all add: object_bottom_def\<close>)
  next
    case (MEsc k acc)
    from g MEsc have gs: "grounded stack" by simp
    from step_MEsc[OF step[unfolded MEsc]] gs show ?thesis
      by (auto intro: plain_bottom)
  next
    case (MUni k acc n v)
    from g MUni have gs: "grounded stack" by simp
    from step_MUni[OF step[unfolded MUni]] gs show ?thesis
      by (auto intro: plain_bottom)
  next
    case (MNum ns lexeme)
    from g MNum have gs: "grounded stack" by simp
    from step MNum have "number_step ns lexeme c stack = Some ps'" by (simp add: step_MNum)
    from number_step_keeps[OF gs this] show ?thesis .
  next
    case (MLit v rest)
    from g MLit have gs: "grounded stack" by simp
    from step_MLit[OF step[unfolded MLit]] show ?thesis
    proof
      assume "complete v stack = Some ps'"
      from complete_keeps[OF gs this] show ?thesis .
    next
      assume "\<exists>rs. ps' = (MLit v rs, stack)"
      with gs show ?thesis by (auto simp: object_bottom_def)
    qed
  qed
qed

lemma json_run_keeps:
  "object_bottom ps \<Longrightarrow> json_run ps cs = Some ps' \<Longrightarrow> object_bottom ps'"
  by (induction cs arbitrary: ps) (auto split: option.splits dest: json_step_keeps)

lemma json_finish_object:
  assumes "object_bottom ps" "json_finish ps = Some v"
  shows "\<exists>kvs. v = JObj kvs"
proof -
  obtain m stack where ps: "ps = (m, stack)" by (cases ps)
  show ?thesis
  proof (cases m)
    case (MDone w)
    with assms ps show ?thesis
      by (cases w) (auto simp: json_finish_def object_bottom_def)
  next
    case (MNum ns lexeme)
    with assms ps show ?thesis
      by (cases stack) (simp_all add: json_finish_def object_bottom_def grounded_def)
  qed (use assms ps in \<open>simp_all add: json_finish_def\<close>)
qed

lemma JSON_parse_object:
  assumes "JSON_parse (0x7B # text) = Some v"
  shows "\<exists>kvs. v = JObj kvs"
proof -
  have first: "json_step (MValue, []) 0x7B = Some (MObjStart, [FObj [] None])"
    by (simp add: json_step_def is_json_ws_def start_value_def)
  have "object_bottom (MObjStart, [FObj [] None])"
    by (simp add: object_bottom_def grounded_def object_frame_def)
  moreover from assms first obtain ps where
    "json_run (MObjStart, [FObj [] None]) text = Some ps" "json_finish ps = Some v"
    by (auto simp: JSON_parse_def split: option.splits)
  ultimately show ?thesis
    by (blast dest: json_run_keeps json_finish_object)
qed

lemma greedy_span_substring:
  assumes "greedy_span opening closing text = Some found"
  shows "\<exists>before rest after. text = before @ found @ after \<and> found = opening # rest"
proof -
  let ?P = "\<lambda>c. c \<noteq> opening" and ?Q = "\<lambda>d. d \<noteq> closing"
  from assms obtain x body where d: "dropWhile ?P text = x # body"
    and f: "found = x # rev (dropWhile ?Q (rev body))"
    by (auto simp: greedy_span_def split: list.splits if_splits)
  from d have x: "x = opening"
    using hd_dropWhile[of "?P" "text"] by auto
  have "rev body = takeWhile ?Q (rev body) @ dropWhile ?Q (rev body)" by simp
  then have "rev (rev body) = rev (takeWhile ?Q (rev body) @ dropWhile ?Q (rev body))" by simp
  then have b: "body = rev (dropWhile ?Q (rev body)) @ rev (takeWhile ?Q (rev body))"
    by (simp only: rev_rev_ident rev_append)
  have "text = takeWhile ?P text @ dropWhile ?P text" by simp
  also have "\<dots> = takeWhile ?P text @ (x # body)" by (simp only: d)
  also have "\<dots> = takeWhile ?P text @ found @ rev (takeWhile ?Q (rev body))"
    using b f by simp
  finally show ?thesis using f x by blast
qed

lemma substrings_of_two:
  "[a, b] = before @ found @ after \<Longrightarrow> found \<in> {[], [a], [b], [a, b]}"
  by (auto simp: Cons_eq_append_conv)

lemma unparseable_fragments: "JSON_parse [] = None \<and> JSON_parse (js ''{'') = None \<and> JSON_parse (js ''a'') = None \<and> JSON_parse (js ''{a'') = None"
  by code_simp

section \<open>Rule-based Narrator updates\<close>

lemma slice_last_length: "length (slice_last n xs) \<le> n"
  by (simp add: slice_last_def)

lemma slice_last_slice_last:
  "slice_last n (slice_last n xs @ ys) = slice_last n (xs @ ys)"
proof (cases "length xs \<le> n")
  case True
  then show ?thesis by (simp add: slice_last_def)
next
  case False
  then have "length xs + length ys - (length xs - n + n) + (length xs - n) =
             length xs + length ys - n"
    by arith
  with False show ?thesis by (simp add: slice_last_def)
qed

lemma rule_based_update:
  assumes "narratorModel env = None"
  shows "narratorNode env (s\<lparr>parsedInput := Some input\<rparr>) =
           Inr ([SetWorldState (Some (ruleBasedWorldState input (worldState s)))], [])"
  using assms by (simp add: narratorNode_def)

lemma rule_based_events:
  "recentEvents (ruleBasedWorldState input w) =
     slice_last 10 ((case w of None \<Rightarrow> [] | Some x \<Rightarrow> recentEvents x) @ [inputEvent input])"
  by (simp add: ruleBasedWorldState_def)

lemma rule_based_step:
  assumes "narratorModel env = None"
  shows "narratorUpdates env s (input # later) =
           narratorUpdates env
             (s\<lparr>parsedInput := Some input,
                worldState := Some (ruleBasedWorldState input (worldState s))\<rparr>) later"
  by (simp add: rule_based_update[OF assms] merge_def)

lemma rule_based_from_capped:
  assumes "narratorModel env = None"
  shows "worldState s = Some w \<Longrightarrow> length (recentEvents w) \<le> 10 \<Longrightarrow>
         resultEvents (narratorUpdates env s inputs) =
           Some (slice_last 10 (recentEvents w @ map inputEvent inputs))"
proof (induction inputs arbitrary: s w)
  case Nil
  then show ?case by (simp add: resultEvents_def slice_last_def)
next
  case (Cons input later)
  let ?w = "ruleBasedWorldState input (worldState s)"
  let ?s = "s\<lparr>parsedInput := Some input, worldState := Some ?w\<rparr>"
  have "resultEvents (narratorUpdates env ?s later) =
          Some (slice_last 10 (recentEvents ?w @ map inputEvent later))"
    by (rule Cons.IH) (simp_all add: rule_based_events slice_last_length)
  then show ?case
    using Cons.prems(1)
    by (simp add: rule_based_step[OF assms] rule_based_events slice_last_slice_last
          del: narratorUpdates.simps)
qed

section \<open>The claims\<close>



text \<open>
  Claim C3, as amended. While \<open>retryCount\<close> is below the bound 3, the Evaluator passes the
  format gate if and only if every PersonaOutput has non-empty content after trimming;
  when an output's trimmed content is empty it fails the gate and \<open>retryCount\<close> increases
  by exactly 1, and when the gate passes \<open>retryCount\<close> stays. At the bound the Evaluator
  reports \<open>formatCheckPassed = true\<close> whatever the outputs are, and \<open>retryCount\<close> stays.
\<close>

theorem evaluate_gate:
  "(retryCount s < maxRetries \<longrightarrow>
      (formatCheckPassed (merge s (fst (directorEvaluateNode s))) \<longleftrightarrow>
         (\<forall>out \<in> set (personaOutputs s). trim (PersonaOutput.content out) \<noteq> [])) \<and>
      retryCount (merge s (fst (directorEvaluateNode s))) =
         (if \<forall>out \<in> set (personaOutputs s). trim (PersonaOutput.content out) \<noteq> []
          then retryCount s else retryCount s + 1)) \<and>
   (maxRetries \<le> retryCount s \<longrightarrow>
      formatCheckPassed (merge s (fst (directorEvaluateNode s))) \<and>
      retryCount (merge s (fst (directorEvaluateNode s))) = retryCount s)"
  by (simp add: directorEvaluateNode_def allValid_iff merge_simps)

theorem evaluate_gate_witness:
  "retryCount (st (run_after silentPersona 4 aliceMessages)) < maxRetries \<and>
   list_ex (\<lambda>out. trim (PersonaOutput.content out) = [])
     (personaOutputs (st (run_after silentPersona 4 aliceMessages))) \<and>
   \<not> formatCheckPassed (st (run_after silentPersona 5 aliceMessages)) \<and>
   retryCount (st (run_after silentPersona 5 aliceMessages)) =
     retryCount (st (run_after silentPersona 4 aliceMessages)) + 1 \<and>
   maxRetries \<le> retryCount (st (run_after silentPersona 10 aliceMessages)) \<and>
   formatCheckPassed (st (run_after silentPersona 11 aliceMessages))"
proof -
  have "st (run_after silentPersona 5 aliceMessages) =
          merge (st (run_after silentPersona 4 aliceMessages))
            (fst (directorEvaluateNode (st (run_after silentPersona 4 aliceMessages))))"
    by code_simp
  moreover have "st (run_after silentPersona 11 aliceMessages) =
          merge (st (run_after silentPersona 10 aliceMessages))
            (fst (directorEvaluateNode (st (run_after silentPersona 10 aliceMessages))))"
    by code_simp
  moreover have "retryCount (st (run_after silentPersona 4 aliceMessages)) < maxRetries \<and>
      list_ex (\<lambda>out. trim (PersonaOutput.content out) = [])
        (personaOutputs (st (run_after silentPersona 4 aliceMessages))) \<and>
      maxRetries \<le> retryCount (st (run_after silentPersona 10 aliceMessages))"
    by code_simp
  ultimately show ?thesis
    using evaluate_gate[of "st (run_after silentPersona 4 aliceMessages)"]
          evaluate_gate[of "st (run_after silentPersona 10 aliceMessages)"]
    by (auto simp: list_ex_iff)
qed

text \<open>
  The claim as it was stated fails at the bound: in the run where the Persona model always
  answers with the empty string, the fourth evaluation sees outputs with empty content
  and \<open>retryCount = 3\<close>; it reports \<open>formatCheckPassed = true\<close> and leaves \<open>retryCount\<close> at 3.
\<close>

theorem evaluate_gate_counterexample:
  "at (run_after silentPersona 10 aliceMessages) = EvaluateN \<and>
   list_ex (\<lambda>out. trim (PersonaOutput.content out) = [])
     (personaOutputs (st (run_after silentPersona 10 aliceMessages))) \<and>
   formatCheckPassed
     (merge (st (run_after silentPersona 10 aliceMessages))
        (fst (directorEvaluateNode (st (run_after silentPersona 10 aliceMessages))))) \<and>
   retryCount
     (merge (st (run_after silentPersona 10 aliceMessages))
        (fst (directorEvaluateNode (st (run_after silentPersona 10 aliceMessages))))) =
   retryCount (st (run_after silentPersona 10 aliceMessages)) \<and>
   retryCount (st (run_after silentPersona 10 aliceMessages)) = 3"
  by code_simp

text \<open>
  Claim C2 does not hold of the code. When the Evaluator triggers a retry it returns
  \<open>personaOutputs: []\<close>, but the reducer of \<open>personaOutputs\<close> appends, so the outputs
  stay. In the run below the Persona model answers Alice with the empty string in the
  first fan-out and with \<open>hi\<close> afterwards: after the retry is triggered the empty output
  is still there, the second fan-out is appended to it, the stale output fails the gate
  again until \<open>retryCount\<close> is 3, and the run ends with four outputs.
\<close>

theorem retry_keeps_stale_outputs:
  "at (run_after recoveringPersona 4 aliceMessages) = EvaluateN \<and>
   retryCount (st (run_after recoveringPersona 4 aliceMessages)) = 0 \<and>
   personaOutputs (st (run_after recoveringPersona 4 aliceMessages)) =
     [\<lparr>characterName = js ''Alice'', content = [], formatValid = False\<rparr>] \<and>
   directorEvaluateNode (st (run_after recoveringPersona 4 aliceMessages)) =
     ([SetFormatCheckPassed False, SetRetryCount 1, SetPersonaOutputs []], []) \<and>
   at (run_after recoveringPersona 5 aliceMessages) = PersonaN \<and>
   personaOutputs (st (run_after recoveringPersona 5 aliceMessages)) =
     [\<lparr>characterName = js ''Alice'', content = [], formatValid = False\<rparr>] \<and>
   personaOutputs (st (run_after recoveringPersona 6 aliceMessages)) =
     [\<lparr>characterName = js ''Alice'', content = [], formatValid = False\<rparr>,
      \<lparr>characterName = js ''Alice'', content = js ''hi'', formatValid = True\<rparr>] \<and>
   retryCount (st (run_after recoveringPersona 7 aliceMessages)) = 2 \<and>
   at (run_after recoveringPersona 12 aliceMessages) = END \<and>
   retryCount (st (run_after recoveringPersona 12 aliceMessages)) = 3 \<and>
   length (personaOutputs (st (run_after recoveringPersona 12 aliceMessages))) = 4"
  by code_simp

text \<open>
  Claim C5. Whenever a run is at the Persona node, the node returns exactly one
  PersonaOutput per entry of \<open>activeCharacters\<close>, in the same order and under the same
  names. A character whose generation ran with no model configured, or whose invocation
  threw, gets the placeholder of that failure with \<open>formatValid = false\<close>. The output of a
  position depends on the generation of that position only: a change of what the model
  does for the other characters leaves it as it is.
\<close>

theorem persona_fan_out:
  assumes "reachable env messages run" and "at run = PersonaN"
  shows "parsedInput (st run) \<noteq> None \<and>
         fst (personaNode env (fanouts run) (st run)) =
           [SetPersonaOutputs (fan_out env (fanouts run) (st run))] \<and>
         length (fan_out env (fanouts run) (st run)) = length (activeCharacters (st run)) \<and>
         map characterName (fan_out env (fanouts run) (st run)) = activeCharacters (st run) \<and>
         (\<forall>slot < length (activeCharacters (st run)).
            (generation_failed env (fanouts run) slot (activeCharacters (st run) ! slot)
               (context_of (st run) (activeCharacters (st run) ! slot)) (presets_of (st run)) \<longrightarrow>
               \<not> formatValid (fan_out env (fanouts run) (st run) ! slot) \<and>
               PersonaOutput.content (fan_out env (fanouts run) (st run) ! slot) =
                 (if personaModelConfig env = None
                  then notConfiguredReply (activeCharacters (st run) ! slot)
                  else generationErrorReply (activeCharacters (st run) ! slot))) \<and>
            (\<forall>env'. same_generation env env' (fanouts run) slot \<longrightarrow>
               fan_out env' (fanouts run) (st run) ! slot =
               fan_out env (fanouts run) (st run) ! slot))"
proof -
  from reachable_parsed[OF assms(1)] assms(2)
  obtain input where i: "parsedInput (st run) = Some input" by auto
  then have p: "presets_of (st run) = presetInstructions input"
    by (simp add: presets_of_def)
  show ?thesis
    using i
    by (auto simp: p fan_out_update fan_out_length fan_out_names fan_out_nth
             dest: generate_failed generate_same)
qed

theorem persona_fan_out_witness:
  "reachable secondFails helloMessages (run_after secondFails 3 helloMessages) \<and>
   at (run_after secondFails 3 helloMessages) = PersonaN \<and>
   activeCharacters (st (run_after secondFails 3 helloMessages)) = [js ''A'', js ''B'', js ''C''] \<and>
   map characterName (fan_out secondFails 0 (st (run_after secondFails 3 helloMessages))) =
     [js ''A'', js ''B'', js ''C''] \<and>
   map formatValid (fan_out secondFails 0 (st (run_after secondFails 3 helloMessages))) =
     [True, False, True] \<and>
   PersonaOutput.content (fan_out secondFails 0 (st (run_after secondFails 3 helloMessages)) ! 1) =
     generationErrorReply (js ''B'') \<and>
   fan_out noneFails 0 (st (run_after secondFails 3 helloMessages)) ! 0 =
     fan_out secondFails 0 (st (run_after secondFails 3 helloMessages)) ! 0 \<and>
   fan_out noneFails 0 (st (run_after secondFails 3 helloMessages)) ! 2 =
     fan_out secondFails 0 (st (run_after secondFails 3 helloMessages)) ! 2"
proof -
  define R where "R = run_after secondFails 3 helloMessages"
  have r: "reachable secondFails helloMessages R"
    unfolding R_def by (rule run_after_reachable)
  have at: "at R = PersonaN" and k: "fanouts R = 0"
    and a: "activeCharacters (st R) = [js ''A'', js ''B'', js ''C'']"
    unfolding R_def by code_simp+
  have f: "map formatValid (fan_out secondFails 0 (st R)) = [True, False, True]"
    unfolding R_def by code_simp
  have s: "same_generation secondFails noneFails 0 0" "same_generation secondFails noneFails 0 2"
    by (simp_all add: same_generation_def secondFails_def noneFails_def)
  have g: "generation_failed secondFails 0 1 (js ''B'') ctx presets" for ctx presets
    by (simp add: generation_failed_def secondFails_def)
  have c: "personaModelConfig secondFails \<noteq> None"
    by (simp add: secondFails_def)
  note t = persona_fan_out[OF r at]
  note p = t[THEN conjunct2, THEN conjunct2, THEN conjunct2, THEN conjunct1]
  note q = t[THEN conjunct2, THEN conjunct2, THEN conjunct2, THEN conjunct2, rule_format]
  from q[of 1] g c
  have b: "PersonaOutput.content (fan_out secondFails 0 (st R) ! 1) = generationErrorReply (js ''B'')"
    by (simp add: k a)
  from q[of 0] q[of 2] s
  have i: "fan_out noneFails 0 (st R) ! 0 = fan_out secondFails 0 (st R) ! 0"
          "fan_out noneFails 0 (st R) ! 2 = fan_out secondFails 0 (st R) ! 2"
    by (simp_all add: k a)
  from r at a p f b i show ?thesis
    by (simp add: k R_def[symmetric])
qed

text \<open>
  Claim C9. When a run reaches the Director with a WorldState that has no present
  character, it ends four nodes later with \<open>finalOutput\<close> equal to the fixed "no replies"
  sentinel, and the trail of the whole run holds no per-character generation and no
  invocation of the Persona or Composer model. \<open>runGraph\<close> returns the sentinel for
  every limit of at least six nodes.
\<close>

theorem no_present_characters:
  assumes "reachable env messages run" and "at run = DirectorN"
    and "worldState (st run) = Some world" and "presentCharacters world = []"
  shows "(\<exists>final. exec env 4 run = Finished final \<and> at final = END \<and>
            finalOutput (st final) = NO_REPLIES \<and> filter fanout_event (trail final) = []) \<and>
         runGraph env (6 + n) messages = Some (Inr NO_REPLIES)"
proof -
  from reachable_parsed[OF assms(1)] assms(2)
  obtain input where i: "parsedInput (st run) = Some input" by auto
  from reachable_prelude[OF assms(1)] assms(2)
  have p: "personaOutputs (st run) = []" "filter fanout_event (trail run) = []"
    by (simp_all add: prelude_def)
  define r1 where "r1 = advance run (directorNode env (st run)) (\<lambda>s. PersonaN)"
  define r2 where
    "r2 = (advance r1 (personaNode env (fanouts r1) (st r1)) (\<lambda>s. EvaluateN))\<lparr>fanouts := fanouts r1 + 1\<rparr>"
  define r3 where "r3 = advance r2 (directorEvaluateNode (st r2)) routeAfterEvaluate"
  define r4 where "r4 = advance r3 (composerNode env (st r3)) (\<lambda>s. END)"
  have d: "directorNode env (st run) = ([SetActiveCharacters [], SetCharacterContexts []], [])"
    by (rule director_nobody[OF i assms(3,4)])
  have r1: "at r1 = PersonaN" "activeCharacters (st r1) = []" "personaOutputs (st r1) = []"
    "trail r1 = trail run"
    by (simp_all add: r1_def advance_fields d merge_simps p)
  have n: "personaNode env (fanouts r1) (st r1) = ([SetPersonaOutputs []], [])"
    by (rule persona_nobody[OF r1(2)])
  have r2: "at r2 = EvaluateN" "personaOutputs (st r2) = []" "trail r2 = trail run"
    by (simp_all add: r2_def advance_fields n merge_simps r1)
  have e: "directorEvaluateNode (st r2) = ([SetFormatCheckPassed True], [])"
    by (simp add: evaluate_update r2 allValid_def)
  have r3: "at r3 = ComposerN" "personaOutputs (st r3) = []" "trail r3 = trail run"
    by (simp_all add: r3_def advance_fields e merge_simps r2 routeAfterEvaluate_def)
  have c: "composerNode env (st r3) = ([SetFinalOutput NO_REPLIES], [])"
    by (rule composer_nothing[OF r3(2)])
  have r4: "at r4 = END" "finalOutput (st r4) = NO_REPLIES" "trail r4 = trail run"
    by (simp_all add: r4_def advance_fields c merge_simps r3)
  have "exec env (Suc (Suc (Suc (Suc 0)))) run = exec env (Suc (Suc (Suc 0))) r1"
    unfolding r1_def by (rule exec_successor[OF successor_director[OF assms(2)]])
  also have "\<dots> = exec env (Suc (Suc 0)) r2"
    unfolding r2_def by (rule exec_successor[OF successor_persona[OF r1(1)]])
  also have "\<dots> = exec env (Suc 0) r3"
    unfolding r3_def by (rule exec_successor[OF successor_evaluate[OF r2(1)]])
  also have "\<dots> = exec env 0 r4"
    unfolding r4_def by (rule exec_successor[OF successor_composer[OF r3(1)]])
  also have "\<dots> = Finished r4"
    by (rule exec_END[OF r4(1)])
  finally have f: "exec env 4 run = Finished r4"
    by (simp add: eval_nat_numeral)
  from reachable_position[OF assms(1)] assms(2)
  have "exec env (Suc (Suc (4 + n))) (start messages) = exec env (4 + n) run"
    by blast
  also have "\<dots> = Finished r4"
    by (rule exec_more_fuel[OF f])
  finally have "exec env (6 + n) (start messages) = Finished r4"
    by simp
  from runGraph_finished[OF this] r4(2)
  have "runGraph env (6 + n) messages = Some (Inr NO_REPLIES)"
    by (simp add: NO_REPLIES_def js_def)
  with f r4 p show ?thesis by simp
qed

theorem no_present_characters_witness:
  "reachable offline helloMessages (run_after offline 2 helloMessages) \<and>
   at (run_after offline 2 helloMessages) = DirectorN \<and>
   map_option presentCharacters (worldState (st (run_after offline 2 helloMessages))) = Some [] \<and>
   (\<exists>final. exec offline 4 (run_after offline 2 helloMessages) = Finished final \<and>
      finalOutput (st final) = NO_REPLIES \<and> filter fanout_event (trail final) = []) \<and>
   runGraph offline 6 helloMessages = Some (Inr NO_REPLIES)"
proof -
  define R where "R = run_after offline 2 helloMessages"
  have r: "reachable offline helloMessages R"
    unfolding R_def by (rule run_after_reachable)
  have a: "at R = DirectorN" and w: "map_option presentCharacters (worldState (st R)) = Some []"
    unfolding R_def by code_simp+
  from w obtain world where "worldState (st R) = Some world" "presentCharacters world = []"
    by auto
  from no_present_characters[OF r a this, of 0]
  have "(\<exists>final. exec offline 4 R = Finished final \<and>
      finalOutput (st final) = NO_REPLIES \<and> filter fanout_event (trail final) = []) \<and>
      runGraph offline 6 helloMessages = Some (Inr NO_REPLIES)"
    by auto
  then show ?thesis
    using r a w by (simp add: R_def[symmetric])
qed

text \<open>
  Claim C10. Both placeholders have non-empty content after trimming, so a failed
  generation (model not configured, or invocation thrown) yields an output that the
  Evaluator's gate accepts although \<open>formatValid\<close> is false. If the outputs before a
  fan-out pass the gate and every generation of the fan-out fails, the Evaluator passes
  and triggers no retry. If the outputs before a fan-out pass the gate and the Evaluator
  does not pass after it, then the Persona model is configured and, for some character,
  it returned (did not throw) a reply whose content is empty after trimming.
\<close>

theorem placeholders_pass_gate:
  "trim (notConfiguredReply charName) \<noteq> [] \<and>
   trim (generationErrorReply charName) \<noteq> [] \<and>
   (generation_failed env k slot charName context presets \<longrightarrow>
      \<not> formatValid (fst (generatePersonaResponse env k slot charName context presets)) \<and>
      trim (PersonaOutput.content (fst (generatePersonaResponse env k slot charName context presets)))
        \<noteq> []) \<and>
   (allValid (personaOutputs s) \<and>
    (\<forall>slot < length (activeCharacters s).
       generation_failed env k slot (activeCharacters s ! slot)
         (context_of s (activeCharacters s ! slot)) (presets_of s)) \<longrightarrow>
      directorEvaluateNode (merge s (fst (personaNode env k s))) = ([SetFormatCheckPassed True], [])) \<and>
   (allValid (personaOutputs s) \<and>
    directorEvaluateNode (merge s (fst (personaNode env k s))) \<noteq> ([SetFormatCheckPassed True], []) \<longrightarrow>
      (\<exists>model slot. personaModelConfig env = Some model \<and> slot < length (activeCharacters s) \<and>
         model k slot (buildSystemPrompt env (activeCharacters s ! slot) (presets_of s))
           (context_of s (activeCharacters s ! slot)) \<noteq> Failure \<and>
         trim (response_content
                 (model k slot (buildSystemPrompt env (activeCharacters s ! slot) (presets_of s))
                    (context_of s (activeCharacters s ! slot)))) = []))"
proof -
  have gen: "trim (PersonaOutput.content (fst (generatePersonaResponse env k slot n c p))) \<noteq> []"
    if "generation_failed env k slot n c p" for slot n c p
    using generate_failed[OF that] by (simp add: placeholder_nonempty)
  have culprit: "\<exists>model slot. personaModelConfig env = Some model \<and> slot < length (activeCharacters s) \<and>
         model k slot (buildSystemPrompt env (activeCharacters s ! slot) (presets_of s))
           (context_of s (activeCharacters s ! slot)) \<noteq> Failure \<and>
         trim (response_content
                 (model k slot (buildSystemPrompt env (activeCharacters s ! slot) (presets_of s))
                    (context_of s (activeCharacters s ! slot)))) = []"
    if "\<not> allValid (fan_out env k s)"
  proof (cases "parsedInput s")
    case None
    with that show ?thesis by (simp add: fan_out_without_input allValid_def)
  next
    case (Some input)
    then have p: "presets_of s = presetInstructions input" by (simp add: presets_of_def)
    from that obtain out where "out \<in> set (fan_out env k s)" "trim (PersonaOutput.content out) = []"
      by (auto simp: allValid_iff)
    then obtain slot where sl: "slot < length (activeCharacters s)"
      and e: "trim (PersonaOutput.content (fan_out env k s ! slot)) = []"
      by (auto simp: in_set_conv_nth fan_out_length[OF Some])
    let ?n = "activeCharacters s ! slot"
    from e have e': "trim (PersonaOutput.content
        (fst (generatePersonaResponse env k slot ?n (context_of s ?n) (presets_of s)))) = []"
      by (simp add: fan_out_nth[OF Some sl] p)
    with gen have "\<not> generation_failed env k slot ?n (context_of s ?n) (presets_of s)"
      by blast
    from generate_succeeded[OF this] obtain model where
      m: "personaModelConfig env = Some model"
         "model k slot (buildSystemPrompt env ?n (presets_of s)) (context_of s ?n) \<noteq> Failure"
         "PersonaOutput.content
            (fst (generatePersonaResponse env k slot ?n (context_of s ?n) (presets_of s))) =
          response_content (model k slot (buildSystemPrompt env ?n (presets_of s)) (context_of s ?n))"
      by blast
    from m e' sl show ?thesis
      by (intro exI[of _ model] exI[of _ slot]) simp
  qed
  have pass: "directorEvaluateNode (merge s (fst (personaNode env k s))) = ([SetFormatCheckPassed True], [])"
    if "allValid (personaOutputs s)" "allValid (fan_out env k s)"
    using that by (simp add: evaluate_update after_fan_out allValid_append)
  show ?thesis
  proof (intro conjI impI)
    show "trim (notConfiguredReply charName) \<noteq> []" "trim (generationErrorReply charName) \<noteq> []"
      by (rule placeholder_nonempty)+
    show "\<not> formatValid (fst (generatePersonaResponse env k slot charName context presets))"
      if "generation_failed env k slot charName context presets"
      using generate_failed[OF that] by simp
    show "trim (PersonaOutput.content (fst (generatePersonaResponse env k slot charName context presets))) \<noteq> []"
      if "generation_failed env k slot charName context presets"
      using gen[OF that] .
    show "directorEvaluateNode (merge s (fst (personaNode env k s))) = ([SetFormatCheckPassed True], [])"
      if h: "allValid (personaOutputs s) \<and>
          (\<forall>slot < length (activeCharacters s).
             generation_failed env k slot (activeCharacters s ! slot)
               (context_of s (activeCharacters s ! slot)) (presets_of s))"
    proof (rule pass)
      show "allValid (personaOutputs s)" using h by simp
      show "allValid (fan_out env k s)"
      proof (rule ccontr)
        assume "\<not> allValid (fan_out env k s)"
        from culprit[OF this] h show False
          by (auto simp: generation_failed_def)
      qed
    qed
    show "\<exists>model slot. personaModelConfig env = Some model \<and> slot < length (activeCharacters s) \<and>
         model k slot (buildSystemPrompt env (activeCharacters s ! slot) (presets_of s))
           (context_of s (activeCharacters s ! slot)) \<noteq> Failure \<and>
         trim (response_content
                 (model k slot (buildSystemPrompt env (activeCharacters s ! slot) (presets_of s))
                    (context_of s (activeCharacters s ! slot)))) = []"
      if h: "allValid (personaOutputs s) \<and>
          directorEvaluateNode (merge s (fst (personaNode env k s))) \<noteq> ([SetFormatCheckPassed True], [])"
    proof (rule culprit, rule notI)
      assume "allValid (fan_out env k s)"
      with pass h show False by blast
    qed
  qed
qed

theorem placeholders_pass_gate_witness:
  "at (run_after failing 3 aliceMessages) = PersonaN \<and>
   activeCharacters (st (run_after failing 3 aliceMessages)) = [js ''Alice''] \<and>
   generation_failed failing 0 0 (js ''Alice'')
     (context_of (st (run_after failing 3 aliceMessages)) (js ''Alice''))
     (presets_of (st (run_after failing 3 aliceMessages))) \<and>
   directorEvaluateNode
     (merge (st (run_after failing 3 aliceMessages))
        (fst (personaNode failing 0 (st (run_after failing 3 aliceMessages))))) =
     ([SetFormatCheckPassed True], []) \<and>
   retryCount (st (run_after failing 5 aliceMessages)) = 0 \<and>
   allValid (personaOutputs (st (run_after silentPersona 3 aliceMessages))) \<and>
   directorEvaluateNode
     (merge (st (run_after silentPersona 3 aliceMessages))
        (fst (personaNode silentPersona 0 (st (run_after silentPersona 3 aliceMessages))))) \<noteq>
     ([SetFormatCheckPassed True], []) \<and>
   (\<exists>model slot. personaModelConfig silentPersona = Some model \<and>
      trim (response_content
         (model 0 slot
            (buildSystemPrompt silentPersona
               (activeCharacters (st (run_after silentPersona 3 aliceMessages)) ! slot)
               (presets_of (st (run_after silentPersona 3 aliceMessages))))
            (context_of (st (run_after silentPersona 3 aliceMessages))
               (activeCharacters (st (run_after silentPersona 3 aliceMessages)) ! slot)))) = [])"
proof -
  define F where "F = st (run_after failing 3 aliceMessages)"
  define S where "S = st (run_after silentPersona 3 aliceMessages)"
  have f: "at (run_after failing 3 aliceMessages) = PersonaN"
    "activeCharacters F = [js ''Alice'']" "allValid (personaOutputs F)"
    "retryCount (st (run_after failing 5 aliceMessages)) = 0"
    unfolding F_def by code_simp+
  have g: "generation_failed failing 0 slot n c p" for slot n c p
    by (simp add: generation_failed_def failing_def)
  have s: "allValid (personaOutputs S)"
    "directorEvaluateNode (merge S (fst (personaNode silentPersona 0 S))) \<noteq> ([SetFormatCheckPassed True], [])"
    unfolding S_def by code_simp+
  note a = placeholders_pass_gate[where env=failing and k=0 and s=F, THEN conjunct2, THEN conjunct2,
      THEN conjunct2, THEN conjunct1, rule_format]
  note b = placeholders_pass_gate[where env=silentPersona and k=0 and s=S, THEN conjunct2, THEN conjunct2,
      THEN conjunct2, THEN conjunct2, rule_format]
  have a': "directorEvaluateNode (merge F (fst (personaNode failing 0 F))) = ([SetFormatCheckPassed True], [])"
    by (rule a) (simp add: f g)
  from b[OF conjI[OF s]] have b': "\<exists>model slot. personaModelConfig silentPersona = Some model \<and>
      trim (response_content
         (model 0 slot (buildSystemPrompt silentPersona (activeCharacters S ! slot) (presets_of S))
            (context_of S (activeCharacters S ! slot)))) = []"
    by blast
  from f g a' s b' show ?thesis
    by (simp add: F_def[symmetric] S_def[symmetric])
qed

text \<open>
  Claim C8. In model-driven mode, when the invocation of the Narrator model throws, or
  when no substring of the reply's content is a text that \<open>JSON.parse\<close> reads as an
  object, the Narrator returns the prior WorldState as its update, and merging that
  update leaves the whole state as it was.
\<close>

theorem narrator_failure_keeps_state:
  assumes "parsedInput s = Some input" and "narratorModel env = Some model"
    and "model (narratorPrompt env input (worldState s)) = Failure \<or>
         (\<forall>before found after kvs.
            response_content (model (narratorPrompt env input (worldState s))) = before @ found @ after \<longrightarrow>
            JSON_parse found \<noteq> Some (JObj kvs))"
  shows "narratorNode env s = Inr ([SetWorldState (worldState s)], [Invoke AgentNarrator]) \<and>
         merge s [SetWorldState (worldState s)] = s"
proof
  show "merge s [SetWorldState (worldState s)] = s"
    by (cases "worldState s") (simp_all add: merge_def)
  let ?r = "model (narratorPrompt env input (worldState s))"
  show "narratorNode env s = Inr ([SetWorldState (worldState s)], [Invoke AgentNarrator])"
  proof (cases "?r = Failure")
    case True
    with assms(1,2) show ?thesis by (simp add: narratorNode_def)
  next
    case False
    with assms(3) have none: "\<And>before found after kvs.
        response_content ?r = before @ found @ after \<Longrightarrow> JSON_parse found \<noteq> Some (JObj kvs)"
      by blast
    have "JSON_parse found = None" if g: "greedy_span 0x7B 0x7D (response_content ?r) = Some found" for found
    proof (rule ccontr)
      assume "JSON_parse found \<noteq> None"
      then obtain v where v: "JSON_parse found = Some v" by auto
      from greedy_span_substring[OF g] obtain before rest after where
        t: "response_content ?r = before @ found @ after" "found = 0x7B # rest" by blast
      from JSON_parse_object[OF v[unfolded t(2)]] obtain kvs where k: "v = JObj kvs" ..
      from none[OF t(1), of kvs] v k show False by simp
    qed
    with assms(1,2) False show ?thesis
      by (cases ?r) (auto simp: narratorNode_def Let_def split: option.splits)
  qed
qed

theorem narrator_failure_keeps_state_witness:
  "narratorNode narratorThrows (st (run_after narratorThrows 1 helloMessages)) =
     Inr ([SetWorldState (worldState (st (run_after narratorThrows 1 helloMessages)))],
          [Invoke AgentNarrator]) \<and>
   st (run_after narratorThrows 2 helloMessages) = st (run_after narratorThrows 1 helloMessages) \<and>
   narratorNode narratorRambles (st (run_after narratorRambles 1 helloMessages)) =
     Inr ([SetWorldState (worldState (st (run_after narratorRambles 1 helloMessages)))],
          [Invoke AgentNarrator]) \<and>
   st (run_after narratorRambles 2 helloMessages) = st (run_after narratorRambles 1 helloMessages)"
proof -
  define A where "A = st (run_after narratorThrows 1 helloMessages)"
  define B where "B = st (run_after narratorRambles 1 helloMessages)"
  have pa: "parsedInput A \<noteq> None" and pb: "parsedInput B \<noteq> None"
    unfolding A_def B_def by code_simp+
  then obtain ia ib where i: "parsedInput A = Some ia" "parsedInput B = Some ib" by auto
  have ma: "narratorModel narratorThrows = Some (\<lambda>prompt. Failure)"
    and mb: "narratorModel narratorRambles = Some (\<lambda>prompt. Text (js ''{a''))"
    by (simp_all add: narratorThrows_def narratorRambles_def offline_def)
  have nothing: "\<forall>before found after kvs.
      response_content (Text (js ''{a'')) = before @ found @ after \<longrightarrow>
      JSON_parse found \<noteq> Some (JObj kvs)"
  proof (intro allI impI)
    fix before found after :: jstring and kvs
    assume "response_content (Text (js ''{a'')) = before @ found @ after"
    then have "[0x7B, 0x61] = before @ found @ after"
      by (simp add: response_content_def js_def)
    from substrings_of_two[OF this] have "found \<in> {[], js ''{'', js ''a'', js ''{a''}"
      by (simp add: js_def)
    with unparseable_fragments show "JSON_parse found \<noteq> Some (JObj kvs)" by auto
  qed
  then have hyp: "Text (js ''{a'') = Failure \<or>
      (\<forall>before found after kvs.
          response_content (Text (js ''{a'')) = before @ found @ after \<longrightarrow>
          JSON_parse found \<noteq> Some (JObj kvs))" ..
  from narrator_failure_keeps_state[OF i(1) ma]
  have a: "narratorNode narratorThrows A = Inr ([SetWorldState (worldState A)], [Invoke AgentNarrator])"
    by simp
  from narrator_failure_keeps_state[OF i(2) mb hyp]
  have b: "narratorNode narratorRambles B = Inr ([SetWorldState (worldState B)], [Invoke AgentNarrator])"
    by simp
  have s: "st (run_after narratorThrows 2 helloMessages) = A"
     "st (run_after narratorRambles 2 helloMessages) = B"
    unfolding A_def B_def by code_simp+
  show ?thesis
    using a b s unfolding A_def B_def by simp
qed




text \<open>
  Claim C4, as amended. For every non-empty sequence of rule-based Narrator updates, from
  any state, \<open>recentEvents\<close> ends as the last ten entries of the prior events followed by
  the events of the updates, in order: its length is at most 10 and the oldest entries
  are the ones evicted.
\<close>

theorem rule_based_events_capped:
  assumes "narratorModel env = None" and "inputs \<noteq> []"
  shows "resultEvents (narratorUpdates env s inputs) =
           Some (slice_last 10 (priorEvents s @ map inputEvent inputs)) \<and>
         length (slice_last 10 (priorEvents s @ map inputEvent inputs)) \<le> 10"
proof
  from assms(2) obtain input later where i: "inputs = input # later" by (cases inputs) auto
  let ?w = "ruleBasedWorldState input (worldState s)"
  let ?s = "s\<lparr>parsedInput := Some input, worldState := Some ?w\<rparr>"
  have "resultEvents (narratorUpdates env ?s later) =
          Some (slice_last 10 (recentEvents ?w @ map inputEvent later))"
    by (rule rule_based_from_capped[OF assms(1)]) (simp_all add: rule_based_events slice_last_length)
  then show "resultEvents (narratorUpdates env s inputs) =
           Some (slice_last 10 (priorEvents s @ map inputEvent inputs))"
    by (simp add: i rule_based_step[OF assms(1)] rule_based_events slice_last_slice_last
          priorEvents_def del: narratorUpdates.simps)
  show "length (slice_last 10 (priorEvents s @ map inputEvent inputs)) \<le> 10"
    by (rule slice_last_length)
qed

theorem rule_based_events_capped_witness:
  "narratorModel offline = None \<and> twelveInputs \<noteq> [] \<and> priorEvents defaultState = [] \<and>
   resultEvents (narratorUpdates offline defaultState twelveInputs) =
     Some (map inputEvent (drop 2 twelveInputs)) \<and>
   length (map inputEvent (drop 2 twelveInputs)) = 10"
proof -
  have a: "narratorModel offline = None" "twelveInputs \<noteq> []" "priorEvents defaultState = []"
    by (simp_all add: offline_def twelveInputs_def priorEvents_def defaultState_def)
  have "slice_last 10 (priorEvents defaultState @ map inputEvent twelveInputs) =
          map inputEvent (drop 2 twelveInputs)"
    by (simp add: a(3) slice_last_def twelveInputs_def)
  with rule_based_events_capped[OF a(1,2), of defaultState] a show ?thesis
    by (simp add: twelveInputs_def)
qed

text \<open>
  The claim as it was stated fails in model-driven mode: the Narrator stores the
  WorldState of the model's JSON as it is, here with eleven recent events.
\<close>

theorem model_driven_events_counterexample:
  "at (run_after (narratorReplies elevenEvents) 1 helloMessages) = NarratorN \<and>
   map_option (length \<circ> recentEvents)
     (worldState (st (run_after (narratorReplies elevenEvents) 2 helloMessages))) = Some 11"
  by code_simp

text \<open>
  Claim C7 does not hold of the code for every message. \<open>stripXmlTags\<close> removes each span
  from an opening tag to the nearest closing tag of any name, then each remaining opening
  tag; a closing tag that is left over stays in the dialogue text: the outer closing tag
  of nested tags, or a closing tag with no opening tag before it.
\<close>

theorem parser_leaves_closing_tags:
  "stripXmlTags (js ''<a><b>x</b></a>Hello'') = js ''</a>Hello'' \<and>
   stripXmlTags (js ''</b>Hello'') = js ''</b>Hello'' \<and>
   map_option chatHistory (parsedInput (st (run_after offline 1 nestedMessages))) =
     Some [\<lparr>role = js ''user'', Message.content = js ''</a>Hello''\<rparr>] \<and>
   map_option userInput (parsedInput (st (run_after offline 1 nestedMessages))) =
     Some (js ''</a>Hello'')"
  by code_simp

text \<open>
  The example of the claim holds: the message \<^verbatim>\<open><fiction_style>X</fiction_style>Hello\<close>
  gives \<open>presetInstructions.fiction_style = "X"\<close> and the dialogue text \<open>Hello\<close>.
\<close>

lemma parser_example:
  "map_option presetInstructions (parsedInput (st (run_after offline 1 styledMessages))) =
     Some [(js ''fiction_style'', js ''X'')] \<and>
   map_option chatHistory (parsedInput (st (run_after offline 1 styledMessages))) =
     Some [\<lparr>role = js ''user'', Message.content = js ''Hello''\<rparr>] \<and>
   map_option userInput (parsedInput (st (run_after offline 1 styledMessages))) =
     Some (js ''Hello'')"
  by code_simp

end
